theory Spec2Isabelle
  imports Main
begin

section \<open>Values, syntax nodes and stack frames\<close>

text \<open>
  The debugger works on values of a JavaScript interpreter. A value is one of the
  primitive kinds, an array or object literal of the host, or an opaque reference to an
  object that lives inside the interpreter (\<open>JRef\<close>). Numbers are restricted to
  integers: floating-point values are outside this embedding.
\<close>

datatype jsval =
    Undefined
  | Null
  | JBool bool
  | JNum int
  | JStr string
  | JArr "jsval list"
  | JObject "(string \<times> jsval) list"
  | JRef nat

text \<open>
  The text of the debugged program is a JavaScript string, a sequence of UTF-16 code
  units, each given by its number: \<open>String.prototype.trim\<close> depends on characters
  beyond ASCII. \<open>utf16\<close> gives the code units of an ASCII text. Names, labels and
  messages stay plain strings.
\<close>

type_synonym jsstring = "nat list"

definition utf16 :: "string \<Rightarrow> jsstring" where
  "utf16 s = map of_char s"

text \<open>Truthiness, as tested by \<open>!x\<close>, \<open>x || d\<close> and \<open>filter(Boolean)\<close>.\<close>

fun truthy :: "jsval \<Rightarrow> bool" where
  "truthy Undefined = False"
| "truthy Null = False"
| "truthy (JBool b) = b"
| "truthy (JNum n) = (n \<noteq> 0)"
| "truthy (JStr s) = (s \<noteq> [])"
| "truthy (JArr xs) = True"
| "truthy (JObject kvs) = True"
| "truthy (JRef r) = True"

text \<open>Decimal rendering of numbers, as template strings and \<open>String\<close> produce it.\<close>

definition digitChar :: "nat \<Rightarrow> char" where
  "digitChar d = ''0123456789'' ! d"

function showNat :: "nat \<Rightarrow> string" where
  "showNat n = (if n < 10 then [digitChar n] else showNat (n div 10) @ [digitChar (n mod 10)])"
  by pat_completeness auto
termination
  by (relation "measure id") auto

declare showNat.simps [simp del]

definition showInt :: "int \<Rightarrow> string" where
  "showInt k = (if k < 0 then CHR ''-'' # showNat (nat (- k)) else showNat (nat k))"

text \<open>
  \<open>String(v)\<close>. Inside an array, \<open>undefined\<close> and \<open>null\<close> render as the empty
  string and the elements are joined by commas; every object renders as
  \<open>[object Object]\<close>.
\<close>

fun String_js :: "jsval \<Rightarrow> string"
  and joinElements :: "jsval list \<Rightarrow> string" where
  "String_js Undefined = ''undefined''"
| "String_js Null = ''null''"
| "String_js (JBool b) = (if b then ''true'' else ''false'')"
| "String_js (JNum n) = showInt n"
| "String_js (JStr s) = s"
| "String_js (JArr xs) = joinElements xs"
| "String_js (JObject kvs) = ''[object Object]''"
| "String_js (JRef r) = ''[object Object]''"
| "joinElements [] = []"
| "joinElements (x # xs) =
     (if x = Undefined \<or> x = Null then [] else String_js x)
     @ (if xs = [] then [] else CHR '','' # joinElements xs)"

text \<open>
  What a \<open>throw\<close> carries: an \<open>Error\<close> instance with its name and message, or any
  other value. \<open>errString\<close> is the text a template string gives it,
  \<open>errMessage\<close> is \<open>err instanceof Error ? err.message : String(err)\<close>.
\<close>

datatype exn = JsError string string | Thrown jsval

fun errString :: "exn \<Rightarrow> string" where
  "errString (JsError nm msg) =
     (if nm = [] then msg else if msg = [] then nm else nm @ '': '' @ msg)"
| "errString (Thrown v) = String_js v"

fun errMessage :: "exn \<Rightarrow> string" where
  "errMessage (JsError nm msg) = msg"
| "errMessage (Thrown v) = String_js v"

text \<open>Reading a property of \<open>null\<close> raises a \<open>TypeError\<close>.\<close>

definition nullDeref :: "string \<Rightarrow> exn" where
  "nullDeref prop =
     JsError ''TypeError'' (''Cannot read properties of null (reading '' @ prop @ '')'')"

text \<open>
  A syntax node is loosely typed in the source: one object shape with a \<open>type\<close> tag,
  the offsets \<open>start\<close> and \<open>end\<close>, and optional fields that depend on the kind of
  node. The model keeps that shape, with every field the debugger reads. An array
  expression's \<open>elements\<close> may hold \<open>null\<close> for a hole (\<open>[, 1]\<close>), which is
  \<open>None\<close> here.
\<close>

datatype node = Node
  (ntype: string)
  (nstart: nat)
  (nend: nat)
  (nname: "string option")
  (nid: "node option")
  (declarations: "node list option")
  (operator: "string option")
  (left: "node option")
  (right: "node option")
  (callee: "node option")
  (arguments: "node list option")
  (elements: "node option list option")
  (nvalue: jsval)

record Scope =
  object :: jsval
  constructorName :: string

record Func =
  fnode :: "node option"

record StackFrame =
  node :: "node option"
  scope :: "Scope option"
  func :: "Func option"

section \<open>The interpreter interface\<close>

text \<open>
  \<open>JSInterpreter\<close> is the interface of the interpreter library, which is not part of
  the repository: the model takes it as a parameter. \<open>'i\<close> is the state of one
  interpreter object. A method that may throw returns a sum with the exception on the
  left; \<open>step\<close> returns whether the program can continue and mutates the interpreter,
  also when it throws. \<open>pseudoToNative\<close> is optional in the interface.
\<close>

datatype 'i step_result = Threw exn 'i | Stepped bool 'i

record 'i JSInterpreter =
  interp_step :: "'i \<Rightarrow> 'i step_result"
  interp_value :: "'i \<Rightarrow> jsval"
  getStateStack :: "'i \<Rightarrow> StackFrame list"
  getProperty :: "'i \<Rightarrow> jsval \<Rightarrow> string \<Rightarrow> exn + jsval"
  pseudoToNative :: "('i \<Rightarrow> jsval \<Rightarrow> exn + jsval) option"
  nativeToPseudo :: "'i \<Rightarrow> jsval \<Rightarrow> exn + jsval"
  setProperty :: "'i \<Rightarrow> jsval \<Rightarrow> string \<Rightarrow> jsval \<Rightarrow> exn + 'i"
  createNativeFunction :: "'i \<Rightarrow> (unit \<Rightarrow> jsval) \<Rightarrow> exn + jsval"

section \<open>Scope resolver and variable collector\<close>

definition getScopeName :: "int \<Rightarrow> int \<Rightarrow> string" where
  "getScopeName index stackLength =
     (if index = 0 then ''Global'' else ''Local-'' @ showInt (stackLength - 1 - index))"

definition convertToNativeValue :: "'i JSInterpreter \<Rightarrow> 'i \<Rightarrow> jsval \<Rightarrow> exn + jsval" where
  "convertToNativeValue interp i v =
     (case pseudoToNative interp of None \<Rightarrow> Inr v | Some conv \<Rightarrow> conv i v)"

text \<open>
  The result object of a lookup. A missing \<open>value\<close> property reads as \<open>undefined\<close>.
\<close>

record lookup =
  found :: bool
  rvalue :: jsval
  scopeName :: string

text \<open>
  Beside its result every resolver function returns the list of \<open>getProperty\<close> calls it
  made, as pairs of frame index and name, in the order of the calls. The list is how the
  model speaks about which frames a search looked at.

  In \<open>findVariableInFrame\<close> both \<open>getProperty\<close> and the conversion sit inside one
  \<open>try\<close> block whose handler only logs: an exception of either falls through to the
  final \<open>return { found: false, scopeName }\<close>.
\<close>

definition findVariableInFrame ::
  "'i JSInterpreter \<Rightarrow> 'i \<Rightarrow> StackFrame \<Rightarrow> string \<Rightarrow> nat \<Rightarrow> nat \<Rightarrow> lookup \<times> (nat \<times> string) list"
where
  "findVariableInFrame interp i stackFrame varName frameIndex stackLength =
     (let scopeName = getScopeName (int frameIndex) (int stackLength);
          notFound = \<lparr>found = False, rvalue = Undefined, scopeName = scopeName\<rparr>
      in case scope stackFrame of
           None \<Rightarrow> (notFound, [])
         | Some sc \<Rightarrow>
             if \<not> truthy (object sc) then (notFound, [])
             else
               (case getProperty interp i (object sc) varName of
                  Inl err \<Rightarrow> (notFound, [(frameIndex, varName)])
                | Inr varValue \<Rightarrow>
                    if varValue \<noteq> Undefined then
                      (case convertToNativeValue interp i varValue of
                         Inl err \<Rightarrow> (notFound, [(frameIndex, varName)])
                       | Inr nativeValue \<Rightarrow>
                           (\<lparr>found = True, rvalue = nativeValue, scopeName = scopeName\<rparr>,
                            [(frameIndex, varName)]))
                    else (notFound, [(frameIndex, varName)])))"

text \<open>
  The loop \<open>for (let i = stack.length - 1; i >= 0; i--)\<close>: \<open>findVariableFrom \<dots> n\<close>
  is the rest of the loop when the next index to visit is \<open>n - 1\<close>.
\<close>

primrec findVariableFrom ::
  "'i JSInterpreter \<Rightarrow> 'i \<Rightarrow> StackFrame list \<Rightarrow> string \<Rightarrow> nat \<Rightarrow> lookup \<times> (nat \<times> string) list"
where
  "findVariableFrom interp i stack varName 0 =
     (\<lparr>found = False, rvalue = Undefined, scopeName = []\<rparr>, [])"
| "findVariableFrom interp i stack varName (Suc n) =
     (let (result, calls) = findVariableInFrame interp i (stack ! n) varName n (length stack)
      in if found result then (result, calls)
         else (let (result', calls') = findVariableFrom interp i stack varName n
               in (result', calls @ calls')))"

definition findVariableInStack ::
  "'i JSInterpreter \<Rightarrow> 'i \<Rightarrow> StackFrame list \<Rightarrow> string \<Rightarrow> lookup \<times> (nat \<times> string) list"
where
  "findVariableInStack interp i stack varName =
     findVariableFrom interp i stack varName (length stack)"

text \<open>
  A \<open>Record<string, unknown>\<close> is an association list of its own properties in
  insertion order. \<open>assign\<close> is \<open>obj[k] = v\<close>. The test \<open>k in obj\<close> also sees the
  properties inherited from \<open>Object.prototype\<close>.
\<close>

fun assign :: "string \<Rightarrow> jsval \<Rightarrow> (string \<times> jsval) list \<Rightarrow> (string \<times> jsval) list" where
  "assign k v [] = [(k, v)]"
| "assign k v ((k', v') # kvs) = (if k = k' then (k, v) # kvs else (k', v') # assign k v kvs)"

definition objectPrototypeKeys :: "string list" where
  "objectPrototypeKeys =
     [''constructor'', ''__defineGetter__'', ''__defineSetter__'', ''hasOwnProperty'',
      ''__lookupGetter__'', ''__lookupSetter__'', ''isPrototypeOf'',
      ''propertyIsEnumerable'', ''toString'', ''valueOf'', ''__proto__'',
      ''toLocaleString'']"

definition inObject :: "string \<Rightarrow> (string \<times> jsval) list \<Rightarrow> bool" where
  "inObject k obj = (k \<in> fst ` set obj \<or> k \<in> set objectPrototypeKeys)"

fun collectLoop ::
  "'i JSInterpreter \<Rightarrow> 'i \<Rightarrow> StackFrame list \<Rightarrow> string list \<Rightarrow> (string \<times> jsval) list
     \<Rightarrow> (string \<times> jsval) list \<times> (nat \<times> string) list"
where
  "collectLoop interp i stack [] variables = (variables, [])"
| "collectLoop interp i stack (varName # varNames) variables =
     (let (result, calls) = findVariableInStack interp i stack varName;
          variables' =
            (if found result \<and> rvalue result \<noteq> Undefined \<and> \<not> inObject varName variables
             then assign varName (rvalue result) variables else variables);
          (final, calls') = collectLoop interp i stack varNames variables'
      in (final, calls @ calls'))"

definition collectVariablesFromStack ::
  "'i JSInterpreter \<Rightarrow> 'i \<Rightarrow> StackFrame list \<Rightarrow> string list
     \<Rightarrow> (string \<times> jsval) list \<times> (nat \<times> string) list"
where
  "collectVariablesFromStack interp i stack varNames =
     (if stack = [] \<or> varNames = [] then ([], [])
      else collectLoop interp i stack varNames [])"

section \<open>Breakpoint detection and the view-argument extractor\<close>

text \<open>
  Modelled from the spec: \<open>isAtView\<close> is imported by the debugger from the interpreter
  module, but its definition is not among the sources. The specification (4.3) says:
  true exactly when the top-of-stack frame's current node is a call whose callee
  identifier is named \<open>view\<close>.
\<close>

definition isAtView :: "StackFrame list \<Rightarrow> bool" where
  "isAtView stack =
     (case stack of
        [] \<Rightarrow> False
      | _ \<Rightarrow>
          (case node (last stack) of
             None \<Rightarrow> False
           | Some n \<Rightarrow>
               ntype n = ''CallExpression'' \<and>
               (case callee n of
                  None \<Rightarrow> False
                | Some c \<Rightarrow> ntype c = ''Identifier'' \<and> nname c = Some ''view'')))"

text \<open>
  The loop over \<open>firstArg.elements\<close> in \<open>getCurrentState\<close>, with \<open>pairs\<close> as the
  accumulator. \<open>element.type\<close>, \<open>first.type\<close> and \<open>second.type\<close> raise a
  \<open>TypeError\<close> on a hole; \<open>second.type\<close> is only read when \<open>first\<close> is a literal.
\<close>

fun extractViewPairs ::
  "node option list \<Rightarrow> (string \<times> string) list \<Rightarrow> exn + (string \<times> string) list"
where
  "extractViewPairs [] pairs = Inr pairs"
| "extractViewPairs (None # rest) pairs = Inl (nullDeref ''type'')"
| "extractViewPairs (Some element # rest) pairs =
     (if ntype element = ''ArrayExpression'' then
        (case elements element of
           None \<Rightarrow> extractViewPairs rest pairs
         | Some es \<Rightarrow>
             if 2 \<le> length es then
               (case es ! 0 of
                  None \<Rightarrow> Inl (nullDeref ''type'')
                | Some first \<Rightarrow>
                    if ntype first = ''Literal'' then
                      (case es ! 1 of
                         None \<Rightarrow> Inl (nullDeref ''type'')
                       | Some second \<Rightarrow>
                           if ntype second = ''Literal'' then
                             extractViewPairs rest
                               (pairs @ [(String_js (nvalue first), String_js (nvalue second))])
                           else extractViewPairs rest pairs)
                    else extractViewPairs rest pairs)
             else extractViewPairs rest pairs)
      else extractViewPairs rest pairs)"

text \<open>
  The same extraction in the words of the specification (4.4): each element that is
  itself a two-or-more-element literal array whose first two elements are both literal
  nodes gives one pair; every other element gives none. This definition is only the
  yardstick the extractor is compared with.
\<close>

definition isLiteralPair :: "node option \<Rightarrow> bool" where
  "isLiteralPair element =
     (case element of
        None \<Rightarrow> False
      | Some e \<Rightarrow>
          ntype e = ''ArrayExpression'' \<and>
          (case elements e of
             None \<Rightarrow> False
           | Some es \<Rightarrow>
               2 \<le> length es \<and>
               (case (es ! 0, es ! 1) of
                  (Some first, Some second) \<Rightarrow>
                    ntype first = ''Literal'' \<and> ntype second = ''Literal''
                | _ \<Rightarrow> False)))"

definition pairOf :: "node option \<Rightarrow> string \<times> string" where
  "pairOf element =
     (case element of
        Some e \<Rightarrow>
          (case elements e of
             Some (Some first # Some second # _) \<Rightarrow>
               (String_js (nvalue first), String_js (nvalue second))
           | _ \<Rightarrow> ([], []))
      | None \<Rightarrow> ([], []))"

definition specifiedPairs :: "node option list \<Rightarrow> (string \<times> string) list" where
  "specifiedPairs es = map pairOf (filter isLiteralPair es)"

text \<open>
  The positions the extractor dereferences hold no hole: no element is a hole, and in an
  inner array of two or more elements neither the first element nor, after a literal
  first element, the second one.
\<close>

definition noHoleRead :: "node option \<Rightarrow> bool" where
  "noHoleRead element =
     (case element of
        None \<Rightarrow> False
      | Some e \<Rightarrow>
          (if ntype e = ''ArrayExpression'' then
             (case elements e of
                None \<Rightarrow> True
              | Some es \<Rightarrow>
                  (if 2 \<le> length es then
                     (case es ! 0 of
                        None \<Rightarrow> False
                      | Some first \<Rightarrow>
                          (if ntype first = ''Literal'' then es ! 1 \<noteq> None else True))
                   else True))
           else True))"

section \<open>Snapshots\<close>

record Highlight =
  hstart :: nat
  hend :: nat

record DebugState =
  step :: nat
  highlight :: Highlight
  variables :: "(string \<times> jsval) list"
  stackTrace :: "string list"
  timestamp :: nat
  viewVariables :: "(string \<times> jsval) list"

text \<open>
  What the debugger takes from its surroundings: the interpreter class
  \<open>window.Interpreter\<close> (absent when the library is not loaded; its constructor takes
  the program text and an initialisation callback and may throw), the helper
  \<open>extractVariableNames\<close>, the wall clock (\<open>dateNow k\<close> is what the \<open>k\<close>-th reading
  of \<open>Date.now()\<close> returns), whether the code editor is mounted, and
  \<open>JSON.stringify\<close>.
\<close>

record 'i host =
  Interpreter :: "(jsstring \<Rightarrow> ('i \<Rightarrow> jsval \<Rightarrow> exn + 'i) \<Rightarrow> exn + 'i) option"
  extractVariableNames :: "jsstring \<Rightarrow> exn + string list"
  dateNow :: "nat \<Rightarrow> nat"
  editorMounted :: bool
  JSON_stringify :: "jsval \<Rightarrow> string"

definition optStr :: "string option \<Rightarrow> jsval" where
  "optStr s = (case s of None \<Rightarrow> Undefined | Some t \<Rightarrow> JStr t)"

text \<open>\<open>x || d\<close> on an optional string: the empty string is falsy.\<close>

definition strOr :: "string option \<Rightarrow> string \<Rightarrow> string" where
  "strOr s d = (case s of None \<Rightarrow> d | Some t \<Rightarrow> if t = [] then d else t)"

definition declaredName :: "node \<Rightarrow> jsval" where
  "declaredName d = (case nid d of None \<Rightarrow> Undefined | Some idn \<Rightarrow> optStr (nname idn))"

definition nodeInfo :: "node \<Rightarrow> jsval" where
  "nodeInfo n =
     JObject
       ([(''type'', JStr (ntype n)),
         (''start'', JNum (int (nstart n))),
         (''end'', JNum (int (nend n)))]
        @ (if ntype n = ''Identifier'' then [(''name'', optStr (nname n))] else [])
        @ (if ntype n = ''VariableDeclaration'' then
             [(''declarations'',
               (case declarations n of
                  None \<Rightarrow> Undefined
                | Some ds \<Rightarrow> JArr (filter truthy (map declaredName ds))))]
           else [])
        @ (if ntype n = ''AssignmentExpression'' then
             [(''operator'', optStr (operator n)),
              (''leftName'', (case left n of None \<Rightarrow> Undefined | Some l \<Rightarrow> optStr (nname l)))]
           else [])
        @ (if ntype n = ''BinaryExpression'' then
             [(''operator'', optStr (operator n)),
              (''left'', (case left n of None \<Rightarrow> Undefined | Some l \<Rightarrow> JStr (ntype l))),
              (''right'', (case right n of None \<Rightarrow> Undefined | Some r \<Rightarrow> JStr (ntype r)))]
           else []))"

text \<open>\<open>frame.func?.node?.id?.name\<close>\<close>

definition funcName :: "StackFrame \<Rightarrow> string option" where
  "funcName frame =
     (case func frame of
        None \<Rightarrow> None
      | Some f \<Rightarrow>
          (case fnode f of
             None \<Rightarrow> None
           | Some fn \<Rightarrow> (case nid fn of None \<Rightarrow> None | Some idn \<Rightarrow> nname idn)))"

definition topNode :: "StackFrame list \<Rightarrow> node option" where
  "topNode stack = (if stack = [] then None else node (last stack))"

text \<open>
  The first \<open>try\<close> block of \<open>getCurrentState\<close>, which fills \<open>variables\<close>. The call of
  \<open>extractVariableNames\<close> is its first statement and the only one that can throw in this
  model (the conversion of the interpreter's value has a handler of its own), so the
  outer handler finds \<open>variables\<close> still empty.
\<close>

definition debugVariables ::
  "'i JSInterpreter \<Rightarrow> 'i host \<Rightarrow> jsstring \<Rightarrow> 'i \<Rightarrow> StackFrame list \<Rightarrow> (string \<times> jsval) list"
where
  "debugVariables interp host code i stack =
     (case extractVariableNames host code of
        Inl err \<Rightarrow> [(''[Error]'', JStr (''Could not extract variables: '' @ errString err))]
      | Inr varNames \<Rightarrow>
          (let nd = topNode stack;
               v0 = fst (collectVariablesFromStack interp i stack varNames);
               v1 = (if interp_value interp i \<noteq> Undefined then
                       assign ''Interpreter Value''
                         (case convertToNativeValue interp i (interp_value interp i) of
                            Inl err \<Rightarrow> interp_value interp i
                          | Inr native \<Rightarrow> native) v0
                     else v0);
               v2 = assign ''Current Node Type''
                      (JStr (strOr (map_option ntype nd) ''Unknown'')) v1;
               v3 = assign ''Stack Depth'' (JNum (int (length stack))) v2;
               v4 = assign ''Declared Variables'' (JArr (map JStr varNames)) v3;
               v5 = (case nd of None \<Rightarrow> v4 | Some n \<Rightarrow> assign ''Node Info'' (nodeInfo n) v4);
               v6 = (if stack \<noteq> [] then
                       (let currentState = last stack;
                            w = (case scope currentState of
                                   None \<Rightarrow> v5
                                 | Some sc \<Rightarrow>
                                     assign ''Current Scope Type'' (JStr (constructorName sc)) v5)
                        in case func currentState of
                             None \<Rightarrow> w
                           | Some f \<Rightarrow>
                               (case fnode f of
                                  None \<Rightarrow> w
                                | Some fn \<Rightarrow>
                                    assign ''Current Function''
                                      (JStr (strOr (funcName currentState) ''Anonymous'')) w))
                     else v5)
           in v6))"

text \<open>
  The second half of \<open>getCurrentState\<close>: at a \<open>view\<close> call the pairs are read from the
  syntax tree, their names are collected from the stack and the surrounding application
  is notified through \<open>updateStepModeVariables\<close>. That function belongs to another
  module; a call of it is recorded as a notification carrying its two arguments, and it
  is taken not to throw. The result is \<open>viewVariables\<close> and the notifications made.
\<close>

type_synonym notification = "(string \<times> jsval) list \<times> (string \<times> string) list"

definition viewBlock ::
  "'i JSInterpreter \<Rightarrow> 'i \<Rightarrow> StackFrame list \<Rightarrow> (string \<times> jsval) list \<times> notification list"
where
  "viewBlock interp i stack =
     (if isAtView stack then
        (case topNode stack of
           None \<Rightarrow> ([], [])
         | Some n \<Rightarrow>
             (case callee n of
                None \<Rightarrow> ([], [])
              | Some c \<Rightarrow>
                  if nname c = Some ''view'' then
                    (case arguments n of
                       None \<Rightarrow> ([], [])
                     | Some [] \<Rightarrow> ([], [])
                     | Some (firstArg # _) \<Rightarrow>
                         if ntype firstArg = ''ArrayExpression'' then
                           (case elements firstArg of
                              None \<Rightarrow> ([], [])
                            | Some es \<Rightarrow>
                                (case extractViewPairs es [] of
                                   Inl err \<Rightarrow>
                                     ([(''[View Error]'',
                                        JStr (''Could not extract view variables: ''
                                              @ errString err))], [])
                                 | Inr pairs \<Rightarrow>
                                     if pairs \<noteq> [] then
                                       (let viewVars =
                                              fst (collectVariablesFromStack interp i stack
                                                     (map fst pairs))
                                        in (viewVars, [(viewVars, pairs)]))
                                     else ([], [])))
                         else ([], []))
                  else ([], [])))
      else ([], []))"

definition frameLine :: "nat \<Rightarrow> StackFrame \<Rightarrow> string" where
  "frameLine k frame =
     ''Frame '' @ showNat k @ '': '' @ strOr (map_option ntype (node frame)) ''Unknown''
     @ (case funcName frame of
          None \<Rightarrow> []
        | Some f \<Rightarrow> if f = [] then [] else '' ('' @ f @ '')'')"

definition getCurrentState ::
  "'i JSInterpreter \<Rightarrow> 'i host \<Rightarrow> jsstring \<Rightarrow> 'i \<Rightarrow> nat \<Rightarrow> nat \<Rightarrow> DebugState \<times> notification list"
where
  "getCurrentState interp host code i stepNumber now =
     (let stack = getStateStack interp i;
          nd = topNode stack;
          vars = debugVariables interp host code i stack;
          (viewVars, notes) = viewBlock interp i stack
      in (\<lparr>step = stepNumber,
           highlight = \<lparr>hstart = (case nd of None \<Rightarrow> 0 | Some n \<Rightarrow> nstart n),
                        hend = (case nd of None \<Rightarrow> 0 | Some n \<Rightarrow> nend n)\<rparr>,
           variables = vars,
           stackTrace = map (\<lambda>(k, frame). frameLine k frame) (enumerate 0 stack),
           timestamp = now,
           viewVariables = viewVars\<rparr>, notes))"

section \<open>Initialising the interpreter\<close>

text \<open>
  \<open>String.prototype.trim\<close> removes white space and line terminators at both ends.
  These are the code units of the ECMAScript productions \<open>WhiteSpace\<close> (tab, vertical
  tab, form feed, space, no-break space, the byte order mark U+FEFF and the characters
  of the Unicode category Zs: U+1680, U+2000 to U+200A, U+202F, U+205F, U+3000) and
  \<open>LineTerminator\<close> (line feed, carriage return, U+2028, U+2029).
\<close>

definition isWhiteSpace :: "nat \<Rightarrow> bool" where
  "isWhiteSpace c =
     (c = 0x09 \<or> c = 0x0A \<or> c = 0x0B \<or> c = 0x0C \<or> c = 0x0D \<or> c = 0x20 \<or> c = 0xA0 \<or>
      c = 0x1680 \<or> (0x2000 \<le> c \<and> c \<le> 0x200A) \<or> c = 0x2028 \<or> c = 0x2029 \<or>
      c = 0x202F \<or> c = 0x205F \<or> c = 0x3000 \<or> c = 0xFEFF)"

definition trim :: "jsstring \<Rightarrow> jsstring" where
  "trim s = rev (dropWhile isWhiteSpace (rev (dropWhile isWhiteSpace s)))"

text \<open>
  The loop of the initialisation callback over the entries of the environment: each
  variable is converted and bound as a property of the global object; when either step
  throws, the raw value is bound instead, and an exception of that second
  \<open>setProperty\<close> leaves the callback. A call that throws is taken to leave the
  interpreter as it was.
\<close>

fun bindVariables ::
  "'i JSInterpreter \<Rightarrow> jsval \<Rightarrow> (string \<times> jsval) list \<Rightarrow> 'i \<Rightarrow> exn + 'i"
where
  "bindVariables interp globalObject [] i = Inr i"
| "bindVariables interp globalObject ((key, variable) # rest) i =
     (case (case nativeToPseudo interp i variable of
              Inl err \<Rightarrow> Inl err
            | Inr pseudoVariable \<Rightarrow> setProperty interp i globalObject key pseudoVariable) of
        Inr i' \<Rightarrow> bindVariables interp globalObject rest i'
      | Inl err \<Rightarrow>
          (case setProperty interp i globalObject key variable of
             Inl err' \<Rightarrow> Inl err'
           | Inr i' \<Rightarrow> bindVariables interp globalObject rest i'))"

definition initFunc ::
  "'i JSInterpreter \<Rightarrow> 'i host \<Rightarrow> (string \<times> jsval) list option \<Rightarrow> 'i \<Rightarrow> jsval \<Rightarrow> exn + 'i"
where
  "initFunc interp host environment i globalObject =
     (let envVariables = (case environment of None \<Rightarrow> [] | Some vs \<Rightarrow> vs)
      in case bindVariables interp globalObject envVariables i of
           Inl err \<Rightarrow> Inl err
         | Inr i' \<Rightarrow>
             (case createNativeFunction interp i'
                     (\<lambda>_. JStr (JSON_stringify host (JObject envVariables))) of
                Inl err \<Rightarrow> Inl err
              | Inr wrapper \<Rightarrow> setProperty interp i' globalObject ''getVariablesJSON'' wrapper))"

text \<open>
  \<open>initializeInterpreter\<close> returns the interpreter or \<open>null\<close>, and reports through the
  callback \<open>setError\<close>: the second component lists the messages passed to it.
\<close>

definition initializeInterpreter ::
  "'i JSInterpreter \<Rightarrow> 'i host \<Rightarrow> jsstring \<Rightarrow> (string \<times> jsval) list option
     \<Rightarrow> 'i option \<times> string list"
where
  "initializeInterpreter interp host currentCode environment =
     (case Interpreter host of
        None \<Rightarrow> (None, [''JS-Interpreter not loaded. Please refresh the page.''])
      | Some InterpreterClass \<Rightarrow>
          if trim currentCode = [] then (None, [''No code available to execute''])
          else
            (case InterpreterClass currentCode (initFunc interp host environment) of
               Inl err \<Rightarrow> (None, [''Code error: '' @ errMessage err])
             | Inr newInterpreter \<Rightarrow> (Some newInterpreter, [])))"

section \<open>The debug session controller\<close>

text \<open>
  The state of one debugger panel: the component's state variables and props, the timer
  handle \<open>autoPlayIntervalRef\<close>, and what the component has done to its surroundings:
  the calls it made to the code editor, the notifications it sent, the timers it cleared,
  how often it called the interpreter's \<open>step()\<close> and how often it read the clock.
  \<open>interpreter\<close> holds the current state of the interpreter object the component
  refers to, and \<open>environment\<close> holds the entries of \<open>environment.variables\<close>
  (\<open>None\<close> when the prop is \<open>null\<close> or has no variables).

  The helpers of other modules are taken not to throw: \<open>highlightCode\<close> and the
  editor's \<open>dispatch\<close> are recorded as calls to the editor, \<open>getStateStack\<close> and
  \<open>isAtView\<close> are functions of the interpreter's state.
\<close>

datatype editor_call = HighlightCode nat nat | ResetSelection

record 'i session =
  code :: jsstring
  environment :: "(string \<times> jsval) list option"
  interpreter :: "'i option"
  history :: "DebugState list"
  isRunning :: bool
  isComplete :: bool
  isSteppingToView :: bool
  error :: "string option"
  autoPlayInterval :: "nat option"
  editorCalls :: "editor_call list"
  notifications :: "notification list"
  clearedIntervals :: "nat list"
  stepCalls :: nat
  clockReads :: nat

text \<open>\<open>if (ref.current) { clearInterval(ref.current); ref.current = null; }\<close>\<close>

definition clearAutoPlay :: "'i session \<Rightarrow> 'i session" where
  "clearAutoPlay s =
     (case autoPlayInterval s of
        None \<Rightarrow> s
      | Some t \<Rightarrow> s\<lparr>autoPlayInterval := None, clearedIntervals := clearedIntervals s @ [t]\<rparr>)"

text \<open>
  One call of \<open>getCurrentState\<close> from a handler: the snapshot, and the session with the
  notification and the clock reading recorded.
\<close>

definition capture ::
  "'i JSInterpreter \<Rightarrow> 'i host \<Rightarrow> 'i \<Rightarrow> nat \<Rightarrow> 'i session \<Rightarrow> DebugState \<times> 'i session"
where
  "capture interp host i stepNumber s =
     (let (st, notes) =
            getCurrentState interp host (code s) i stepNumber (dateNow host (clockReads s))
      in (st, s\<lparr>notifications := notifications s @ notes, clockReads := Suc (clockReads s)\<rparr>))"

text \<open>
  The three statements every stepping loop repeats: capture the state, append it with
  \<open>setHistory((prev) => [...prev, newState])\<close>, highlight its range.
\<close>

definition appendState ::
  "'i JSInterpreter \<Rightarrow> 'i host \<Rightarrow> 'i \<Rightarrow> nat \<Rightarrow> 'i session \<Rightarrow> 'i session"
where
  "appendState interp host i stepNumber s =
     (let (st, s') = capture interp host i stepNumber s
      in s'\<lparr>history := history s' @ [st],
            editorCalls := editorCalls s' @ [HighlightCode (hstart (highlight st)) (hend (highlight st))]\<rparr>)"

definition setErrors :: "string list \<Rightarrow> 'i session \<Rightarrow> 'i session" where
  "setErrors msgs s = fold (\<lambda>m t. t\<lparr>error := Some m\<rparr>) msgs s"

definition refresh :: "'i JSInterpreter \<Rightarrow> 'i host \<Rightarrow> 'i session \<Rightarrow> 'i session" where
  "refresh interp host s =
     (let s1 = s\<lparr>interpreter := None, history := [], isComplete := False, error := None,
                 isRunning := False, isSteppingToView := False\<rparr>;
          s2 = clearAutoPlay s1;
          s3 = (if editorMounted host then s2\<lparr>editorCalls := editorCalls s2 @ [ResetSelection]\<rparr>
                else s2)
      in if trim (code s) = [] then s3\<lparr>error := Some ''No code to debug''\<rparr>
         else
           (case initializeInterpreter interp host (code s) (environment s) of
              (None, msgs) \<Rightarrow> setErrors msgs s3
            | (Some newInterpreter, msgs) \<Rightarrow>
                (let s4 = (setErrors msgs s3)\<lparr>interpreter := Some newInterpreter\<rparr>;
                     (initialState, s5) = capture interp host newInterpreter 0 s4
                 in s5\<lparr>history := [initialState],
                       editorCalls := editorCalls s5
                         @ [HighlightCode (hstart (highlight initialState))
                              (hend (highlight initialState))]\<rparr>)))"

text \<open>
  A handler runs against the values of the render it was created in: within one call
  \<open>history\<close>, \<open>isComplete\<close> and \<open>isSteppingToView\<close> are the constants bound by
  \<open>useState\<close>, whatever the handler has queued with the setters in the meantime. The
  handlers below read those values from their argument \<open>s\<close> and build the next state
  from the updates in the order of the source.
\<close>

definition stepForward :: "'i JSInterpreter \<Rightarrow> 'i host \<Rightarrow> 'i session \<Rightarrow> 'i session" where
  "stepForward interp host s =
     (case interpreter s of
        None \<Rightarrow> s
      | Some i \<Rightarrow>
          if isComplete s then s
          else
            (case interp_step interp i of
               Threw err i' \<Rightarrow>
                 clearAutoPlay
                   (s\<lparr>interpreter := Some i', stepCalls := Suc (stepCalls s),
                      error := Some (''Execution error: '' @ errString err),
                      isRunning := False, isSteppingToView := False\<rparr>)
             | Stepped canContinue i' \<Rightarrow>
                 (let s1 = appendState interp host i' (length (history s))
                             (s\<lparr>interpreter := Some i', stepCalls := Suc (stepCalls s)\<rparr>);
                      s2 = (if \<not> canContinue then
                              clearAutoPlay
                                (s1\<lparr>isComplete := True, isRunning := False,
                                    isSteppingToView := False\<rparr>)
                            else s1)
                  in if isSteppingToView s \<and> isAtView (getStateStack interp i')
                     then s2\<lparr>isSteppingToView := False\<rparr> else s2)))"

text \<open>
  \<open>stepToView\<close>. Its control flow has three ways to leave a loop: a \<open>return\<close> of the
  handler, an exception (caught by the handler's \<open>try\<close>), and the loop condition
  turning false. \<open>exit\<close> names the place where the handler ends.
\<close>

datatype exit =
    NotStarted
  | CompletedPast
  | CeilingPast
  | CompletedSeek
  | FoundView
  | CeilingSeek
  | Failed
  | FellThrough

datatype 'i flow =
    Return exit "'i session"
  | Raise exn "'i session"
  | LoopExit nat 'i "'i session"

text \<open>
  The first loop, \<open>while (stillAtSameView && stepsCount < maxSteps)\<close>. \<open>stepNumber\<close>
  is \<open>history.length\<close>, which is the same number in every iteration.
\<close>

function stepPastLoop ::
  "'i JSInterpreter \<Rightarrow> 'i host \<Rightarrow> nat \<Rightarrow> nat \<Rightarrow> 'i \<Rightarrow> bool \<Rightarrow> nat \<Rightarrow> 'i session \<Rightarrow> 'i flow"
where
  "stepPastLoop interp host stepNumber maxSteps i stillAtSameView stepsCount s =
     (if stillAtSameView \<and> stepsCount < maxSteps then
        (case interp_step interp i of
           Threw err i' \<Rightarrow>
             Raise err (s\<lparr>interpreter := Some i', stepCalls := Suc (stepCalls s)\<rparr>)
         | Stepped canContinue i' \<Rightarrow>
             (let s1 = appendState interp host i' stepNumber
                         (s\<lparr>interpreter := Some i', stepCalls := Suc (stepCalls s)\<rparr>)
              in if \<not> canContinue then
                   Return CompletedPast (s1\<lparr>isComplete := True, isSteppingToView := False\<rparr>)
                 else
                   stepPastLoop interp host stepNumber maxSteps i'
                     (isAtView (getStateStack interp i')) (Suc stepsCount) s1))
      else LoopExit stepsCount i s)"
  by pat_completeness auto
termination
  by (relation "measure (\<lambda>(interp, host, stepNumber, maxSteps, i, still, stepsCount, s).
        maxSteps - stepsCount)") auto

declare stepPastLoop.simps [simp del]

text \<open>
  The second loop, \<open>while (!foundNextView && stepsCount < maxSteps)\<close>. The flag
  \<open>foundNextView\<close> is only set immediately before a \<open>return\<close>, so it is false
  whenever the condition is evaluated.
\<close>

function seekViewLoop ::
  "'i JSInterpreter \<Rightarrow> 'i host \<Rightarrow> nat \<Rightarrow> nat \<Rightarrow> 'i \<Rightarrow> nat \<Rightarrow> 'i session \<Rightarrow> 'i flow"
where
  "seekViewLoop interp host stepNumber maxSteps i stepsCount s =
     (if stepsCount < maxSteps then
        (case interp_step interp i of
           Threw err i' \<Rightarrow>
             Raise err (s\<lparr>interpreter := Some i', stepCalls := Suc (stepCalls s)\<rparr>)
         | Stepped canContinue i' \<Rightarrow>
             (let s1 = appendState interp host i' stepNumber
                         (s\<lparr>interpreter := Some i', stepCalls := Suc (stepCalls s)\<rparr>)
              in if \<not> canContinue then
                   Return CompletedSeek (s1\<lparr>isComplete := True, isSteppingToView := False\<rparr>)
                 else if isAtView (getStateStack interp i') then
                   Return FoundView (s1\<lparr>isSteppingToView := False\<rparr>)
                 else seekViewLoop interp host stepNumber maxSteps i' (Suc stepsCount) s1))
      else LoopExit stepsCount i s)"
  by pat_completeness auto
termination
  by (relation "measure (\<lambda>(interp, host, stepNumber, maxSteps, i, stepsCount, s).
        maxSteps - stepsCount)") auto

declare seekViewLoop.simps [simp del]

text \<open>The body of the \<open>try\<close> block, with \<open>maxSteps\<close> as a parameter.\<close>

definition stepToViewBody ::
  "'i JSInterpreter \<Rightarrow> 'i host \<Rightarrow> nat \<Rightarrow> nat \<Rightarrow> 'i \<Rightarrow> 'i session \<Rightarrow> 'i flow"
where
  "stepToViewBody interp host stepNumber maxSteps i s =
     (let afterFirst =
            (if isAtView (getStateStack interp i) then
               (case stepPastLoop interp host stepNumber maxSteps i True 0 s of
                  LoopExit stepsCount i' s' \<Rightarrow>
                    if maxSteps \<le> stepsCount then
                      Return CeilingPast
                        (s'\<lparr>error := Some
                              ''Maximum steps reached while trying to step past view() breakpoint'',
                            isSteppingToView := False\<rparr>)
                    else LoopExit stepsCount i' s'
                | other \<Rightarrow> other)
             else LoopExit 0 i s)
      in case afterFirst of
           LoopExit stepsCount i' s' \<Rightarrow>
             (case seekViewLoop interp host stepNumber maxSteps i' stepsCount s' of
                LoopExit stepsCount' i'' s'' \<Rightarrow>
                  if maxSteps \<le> stepsCount' then
                    Return CeilingSeek
                      (s''\<lparr>error := Some ''Maximum steps reached while looking for next View'',
                           isSteppingToView := False\<rparr>)
                  else Return FellThrough s''
              | other \<Rightarrow> other)
         | other \<Rightarrow> other)"

definition maxSteps :: nat where
  "maxSteps = 100000"

definition stepToViewExit ::
  "'i JSInterpreter \<Rightarrow> 'i host \<Rightarrow> 'i session \<Rightarrow> exit \<times> 'i session"
where
  "stepToViewExit interp host s =
     (case interpreter s of
        None \<Rightarrow> (NotStarted, s)
      | Some i \<Rightarrow>
          if isComplete s then (NotStarted, s)
          else
            (case stepToViewBody interp host (length (history s)) maxSteps i
                    (s\<lparr>isSteppingToView := True\<rparr>) of
               Return e s' \<Rightarrow> (e, s')
             | Raise err s' \<Rightarrow>
                 (Failed,
                  s'\<lparr>error := Some (''Execution error: '' @ errString err),
                     isSteppingToView := False\<rparr>)
             | LoopExit stepsCount i' s' \<Rightarrow> (FellThrough, s')))"

definition stepToView :: "'i JSInterpreter \<Rightarrow> 'i host \<Rightarrow> 'i session \<Rightarrow> 'i session" where
  "stepToView interp host s = snd (stepToViewExit interp host s)"

definition stepBackward :: "'i session \<Rightarrow> 'i session" where
  "stepBackward s =
     (if length (history s) \<le> 1 then s
      else
        (let prevState = history s ! (length (history s) - 2)
         in s\<lparr>editorCalls := editorCalls s
                @ [HighlightCode (hstart (highlight prevState)) (hend (highlight prevState))]\<rparr>))"

section \<open>Notions used in the statements\<close>

text \<open>
  \<open>binding\<close> is the defined value a frame binds a name to: the frame has a scope
  object and \<open>getProperty\<close> returns a value other than \<open>undefined\<close> for the name.
  \<open>resolves\<close> is that value after the conversion to a native value, when the
  conversion does not throw.
\<close>

definition binding :: "'i JSInterpreter \<Rightarrow> 'i \<Rightarrow> StackFrame \<Rightarrow> string \<Rightarrow> jsval option" where
  "binding interp i frame varName =
     (case scope frame of
        None \<Rightarrow> None
      | Some sc \<Rightarrow>
          if truthy (object sc) then
            (case getProperty interp i (object sc) varName of
               Inl err \<Rightarrow> None
             | Inr v \<Rightarrow> if v = Undefined then None else Some v)
          else None)"

definition resolves :: "'i JSInterpreter \<Rightarrow> 'i \<Rightarrow> StackFrame \<Rightarrow> string \<Rightarrow> jsval option" where
  "resolves interp i frame varName =
     (case binding interp i frame varName of
        None \<Rightarrow> None
      | Some v \<Rightarrow>
          (case convertToNativeValue interp i v of Inl err \<Rightarrow> None | Inr w \<Rightarrow> Some w))"

text \<open>
  \<open>appended sn s s'\<close>: the history of \<open>s'\<close> is the history of \<open>s\<close> followed by new
  snapshots, all of which carry the step number \<open>sn\<close>.
\<close>

definition appended :: "nat \<Rightarrow> 'i session \<Rightarrow> 'i session \<Rightarrow> bool" where
  "appended sn s s' =
     (\<exists>new. history s' = history s @ new \<and> (\<forall>x\<in>set new. step x = sn))"

text \<open>
  What one stepping loop guarantees when it starts with \<open>stepsCount = cnt\<close> in session
  \<open>s\<close>, and what the body of \<open>stepToView\<close> guarantees.
\<close>

definition loopPost :: "nat \<Rightarrow> nat \<Rightarrow> nat \<Rightarrow> 'i session \<Rightarrow> 'i flow \<Rightarrow> bool" where
  "loopPost sn m cnt s r =
     (case r of
        Return e s' \<Rightarrow>
          (e = CompletedPast \<or> e = CompletedSeek \<or> e = FoundView) \<and>
          stepCalls s' \<le> stepCalls s + (m - cnt) \<and> appended sn s s'
      | Raise err s' \<Rightarrow>
          stepCalls s' \<le> stepCalls s + (m - cnt) \<and> appended sn s s'
      | LoopExit c i' s' \<Rightarrow>
          cnt \<le> c \<and> c \<le> m \<and> stepCalls s' = stepCalls s + (c - cnt) \<and>
          error s' = error s \<and> isComplete s' = isComplete s \<and>
          isSteppingToView s' = isSteppingToView s \<and> appended sn s s')"

definition bodyPost :: "nat \<Rightarrow> nat \<Rightarrow> 'i session \<Rightarrow> 'i flow \<Rightarrow> bool" where
  "bodyPost sn m s r =
     (case r of
        Return e s' \<Rightarrow>
          e \<noteq> FellThrough \<and> e \<noteq> NotStarted \<and> e \<noteq> Failed \<and>
          stepCalls s' \<le> stepCalls s + m \<and> appended sn s s' \<and>
          (e = CeilingPast \<longrightarrow>
             error s' = Some ''Maximum steps reached while trying to step past view() breakpoint'') \<and>
          (e = CeilingSeek \<longrightarrow>
             error s' = Some ''Maximum steps reached while looking for next View'') \<and>
          (e = CeilingPast \<or> e = CeilingSeek \<longrightarrow>
             \<not> isSteppingToView s' \<and> isComplete s' = isComplete s \<and>
             stepCalls s' = stepCalls s + m)
      | Raise err s' \<Rightarrow> stepCalls s' \<le> stepCalls s + m \<and> appended sn s s'
      | LoopExit c i' s' \<Rightarrow> False)"

text \<open>
  \<open>sentAt interp j\<close> is what \<open>getCurrentState\<close> sends to the variable store when
  the interpreter is in state \<open>j\<close>. \<open>visited interp i k\<close> lists the states the
  interpreter reaches by at most \<open>k\<close> calls of \<open>step()\<close> from state \<open>i\<close>, up to
  the first call that throws or reports that the program has ended; \<open>reach interp i k\<close>
  is the state after \<open>k\<close> calls that all returned true.
\<close>

definition sentAt :: "'i JSInterpreter \<Rightarrow> 'i \<Rightarrow> notification list" where
  "sentAt interp j = snd (viewBlock interp j (getStateStack interp j))"



text \<open>
  \<open>noted interp vs s s'\<close>: from \<open>s\<close> to \<open>s'\<close> the history grew by one snapshot
  for each state of \<open>vs\<close>, and the notifications grew by what is sent at these states,
  in order. \<open>notedPost\<close> is what a stepping loop guarantees in these terms.
\<close>

definition noted :: "'i JSInterpreter \<Rightarrow> 'i list \<Rightarrow> 'i session \<Rightarrow> 'i session \<Rightarrow> bool" where
  "noted interp vs s s' =
     (notifications s' = notifications s @ concat (map (sentAt interp) vs) \<and>
      length (history s') = length (history s) + length vs)"


text \<open>
  The body of the \<open>try\<close> block in the initialisation callback: convert the variable
  and bind the converted value.
\<close>

definition convertedBinding ::
  "'i JSInterpreter \<Rightarrow> 'i \<Rightarrow> jsval \<Rightarrow> string \<Rightarrow> jsval \<Rightarrow> exn + 'i"
where
  "convertedBinding interp i globalObject key variable =
     (case nativeToPseudo interp i variable of
        Inl err \<Rightarrow> Inl err
      | Inr pseudoVariable \<Rightarrow> setProperty interp i globalObject key pseudoVariable)"

section \<open>Example inputs\<close>

text \<open>
  A scripted interpreter: its state is a position in a list of call stacks, each step
  moves to the next position and reports whether another one follows. Scope objects are
  references into a table of bindings.
\<close>

definition scripted ::
  "StackFrame list list \<Rightarrow> (nat \<Rightarrow> (string \<times> jsval) list) \<Rightarrow> (jsval \<Rightarrow> exn + jsval) option
     \<Rightarrow> nat JSInterpreter"
where
  "scripted script table conv =
     \<lparr>interp_step = (\<lambda>i. Stepped (i + 2 < length script) (Suc i)),
      interp_value = (\<lambda>i. Undefined),
      getStateStack = (\<lambda>i. if i < length script then script ! i else []),
      getProperty = (\<lambda>i obj name.
        case obj of
          JRef r \<Rightarrow> (case map_of (table r) name of None \<Rightarrow> Inr Undefined | Some v \<Rightarrow> Inr v)
        | _ \<Rightarrow> Inr Undefined),
      pseudoToNative = map_option (\<lambda>f i v. f v) conv,
      nativeToPseudo = (\<lambda>i v. Inr v),
      setProperty = (\<lambda>i obj name v. Inr i),
      createNativeFunction = (\<lambda>i f. Inr (JRef 0))\<rparr>"

definition frameWithScope :: "nat \<Rightarrow> StackFrame" where
  "frameWithScope r =
     \<lparr>node = None, scope = Some \<lparr>object = JRef r, constructorName = ''Scope''\<rparr>, func = None\<rparr>"

text \<open>Two frames that both bind \<open>x\<close>: the global one to 7, the inner one to an object.\<close>

definition shadowStack :: "StackFrame list" where
  "shadowStack = [frameWithScope 0, frameWithScope 1]"

definition shadowTable :: "nat \<Rightarrow> (string \<times> jsval) list" where
  "shadowTable r = (if r = 0 then [(''x'', JNum 7)] else [(''x'', JRef 9)])"

definition failingConversion :: "jsval \<Rightarrow> exn + jsval" where
  "failingConversion v =
     (if v = JRef 9 then Inl (JsError ''RangeError'' ''Maximum call stack size exceeded'')
      else Inr v)"

text \<open>Syntax nodes of the kinds the examples need.\<close>

definition mkNode :: "string \<Rightarrow> nat \<Rightarrow> nat \<Rightarrow> node" where
  "mkNode t s e = Node t s e None None None None None None None None None Undefined"

definition literal :: "nat \<Rightarrow> nat \<Rightarrow> jsval \<Rightarrow> node" where
  "literal s e v = Node ''Literal'' s e None None None None None None None None None v"

definition identifierNode :: "nat \<Rightarrow> nat \<Rightarrow> string \<Rightarrow> node" where
  "identifierNode s e nm =
     Node ''Identifier'' s e (Some nm) None None None None None None None None Undefined"

definition arrayExpression :: "nat \<Rightarrow> nat \<Rightarrow> node option list \<Rightarrow> node" where
  "arrayExpression s e es =
     Node ''ArrayExpression'' s e None None None None None None None None (Some es) Undefined"

definition callExpression :: "nat \<Rightarrow> nat \<Rightarrow> node \<Rightarrow> node list \<Rightarrow> node" where
  "callExpression s e c args =
     Node ''CallExpression'' s e None None None None None None (Some c) (Some args) None Undefined"

text \<open>The call \<open>view([["x","X"],["y","Y"]])\<close>.\<close>

definition xyElements :: "node option list" where
  "xyElements =
     [Some (arrayExpression 6 15
              [Some (literal 7 10 (JStr ''x'')), Some (literal 11 14 (JStr ''X''))]),
      Some (arrayExpression 16 25
              [Some (literal 17 20 (JStr ''y'')), Some (literal 21 24 (JStr ''Y''))])]"

definition xyView :: node where
  "xyView = callExpression 0 27 (identifierNode 0 4 ''view'') [arrayExpression 5 26 xyElements]"

text \<open>The call \<open>view([["x"]])\<close>, whose only pair has one element.\<close>

definition arityOneElements :: "node option list" where
  "arityOneElements = [Some (arrayExpression 6 11 [Some (literal 7 10 (JStr ''x''))])]"


text \<open>The call \<open>view([[,"X"],["y","Y"]])\<close>: the first pair starts with a hole.\<close>

definition holeElements :: "node option list" where
  "holeElements =
     [Some (arrayExpression 6 12 [None, Some (literal 8 11 (JStr ''X''))]),
      Some (arrayExpression 13 22
              [Some (literal 14 17 (JStr ''y'')), Some (literal 18 21 (JStr ''Y''))])]"

definition frameAt :: "node \<Rightarrow> nat \<Rightarrow> StackFrame" where
  "frameAt n r =
     \<lparr>node = Some n, scope = Some \<lparr>object = JRef r, constructorName = ''Scope''\<rparr>, func = None\<rparr>"

definition programFrame :: StackFrame where
  "programFrame = frameAt (mkNode ''Program'' 0 40) 0"

definition xyTable :: "nat \<Rightarrow> (string \<times> jsval) list" where
  "xyTable r = [(''x'', JNum 1), (''y'', JNum 2)]"

text \<open>
  A host whose interpreter class rejects a program that starts with a closing brace and
  otherwise runs the initialisation callback on a fresh interpreter.
\<close>

definition exampleHost :: "nat host" where
  "exampleHost =
     \<lparr>Interpreter = Some (\<lambda>programText init.
        if take 1 programText = utf16 ''}''
        then Inl (JsError ''SyntaxError'' ''Unexpected token (1:0)'')
        else init 0 (JRef 100)),
      extractVariableNames = (\<lambda>programText. Inr [''x'', ''y'']),
      dateNow = (\<lambda>k. 1000 + k),
      editorMounted = True,
      JSON_stringify = (\<lambda>v. ''{}'')\<rparr>"

definition blankSession :: "string \<Rightarrow> nat option \<Rightarrow> nat session" where
  "blankSession programText i =
     \<lparr>code = utf16 programText, environment = None, interpreter = i, history = [],
      isRunning = False, isComplete = False, isSteppingToView = False, error = None,
      autoPlayInterval = None, editorCalls = [], notifications = [], clearedIntervals = [],
      stepCalls = 0, clockReads = 0\<rparr>"

text \<open>A program that runs two steps without reaching a \<open>view\<close> call.\<close>

definition plainScript :: "StackFrame list list" where
  "plainScript = [[programFrame], [programFrame], [programFrame]]"


text \<open>An interpreter that steps for ever and never shows a \<open>view\<close> call.\<close>

definition runaway :: "nat JSInterpreter" where
  "runaway = (scripted [] xyTable None)\<lparr>interp_step := (\<lambda>i. Stepped True (Suc i))\<rparr>"

text \<open>A session whose history holds two snapshots.\<close>

definition snapshotAt :: "nat \<Rightarrow> nat \<Rightarrow> nat \<Rightarrow> DebugState" where
  "snapshotAt n a b =
     \<lparr>step = n, highlight = \<lparr>hstart = a, hend = b\<rparr>, variables = [], stackTrace = [],
      timestamp = 1000 + n, viewVariables = []\<rparr>"

definition twoStepSession :: "nat session" where
  "twoStepSession =
     (blankSession ''x = 1; y = 2;'' (Some 1))
       \<lparr>history := [snapshotAt 0 0 6, snapshotAt 1 7 13], stepCalls := 1, clockReads := 2\<rparr>"

definition holeView :: node where
  "holeView = callExpression 0 24 (identifierNode 0 4 ''view'') [arrayExpression 5 23 holeElements]"


text \<open>
  A session in the middle of an auto-play run, whose program text was replaced by one
  that does not parse.
\<close>

definition busySession :: "nat session" where
  "busySession =
     twoStepSession\<lparr>code := utf16 ''} x = 1;'', isRunning := True, isSteppingToView := True,
                     autoPlayInterval := Some 7\<rparr>"




text \<open>
  An interpreter whose global object has a read-only property \<open>NaN\<close>: binding a
  property of that name throws.
\<close>

definition readOnlyGlobals :: "nat JSInterpreter" where
  "readOnlyGlobals =
     (scripted plainScript xyTable None)
       \<lparr>setProperty := (\<lambda>i obj name v.
          if name = ''NaN''
          then Inl (JsError ''TypeError'' ''Cannot assign to read only property NaN'')
          else Inr i)\<rparr>"

text \<open>
  An interpreter whose conversion of native values always throws, and one that cannot
  create native functions.
\<close>

definition noConversion :: "nat JSInterpreter" where
  "noConversion =
     (scripted plainScript xyTable None)
       \<lparr>nativeToPseudo := (\<lambda>i v. Inl (JsError ''TypeError'' ''Cannot convert value''))\<rparr>"

definition noNativeFunctions :: "nat JSInterpreter" where
  "noNativeFunctions =
     (scripted plainScript xyTable None)
       \<lparr>createNativeFunction := (\<lambda>i f. Inl (JsError ''Error'' ''No native functions''))\<rparr>"



section \<open>Properties\<close>

subsection \<open>Scope labels\<close>

text \<open>
  C9. For a stack of \<open>n\<close> frames and a position \<open>i\<close> in it, the label is
  \<open>Global\<close> exactly for the bottom frame (index 0); every other frame is labelled
  \<open>Local-\<close> followed by the decimal number of frames above it, so that the top
  frame of a stack with more than one frame is \<open>Local-0\<close>.
\<close>

theorem getScopeName_labels:
  "i < n \<Longrightarrow>
     (getScopeName (int i) (int n) = ''Global'' \<longleftrightarrow> i = 0) \<and>
     (i \<noteq> 0 \<longrightarrow> getScopeName (int i) (int n) = ''Local-'' @ showNat (n - 1 - i)) \<and>
     (i \<noteq> 0 \<and> i = n - 1 \<longrightarrow> getScopeName (int i) (int n) = ''Local-0'')"
  by (auto simp: getScopeName_def showInt_def showNat.simps[of 0] digitChar_def nat_diff_distrib)

theorem getScopeName_labels_witness:
  "(2::nat) < 4 \<and> getScopeName 2 4 = ''Local-1'' \<and> getScopeName 2 4 \<noteq> ''Global''"
proof -
  have h: "(2::nat) < 4" by simp
  have s: "showNat 1 = ''1''" by (subst showNat.simps) (simp add: digitChar_def)
  from getScopeName_labels[OF h] s show ?thesis by simp
qed

subsection \<open>The scope resolver\<close>

lemma findVariableInFrame_resolves:
  "fst (findVariableInFrame interp i fr nm k n) =
     (case resolves interp i fr nm of
        Some w \<Rightarrow> \<lparr>found = True, rvalue = w, scopeName = getScopeName (int k) (int n)\<rparr>
      | None \<Rightarrow> \<lparr>found = False, rvalue = Undefined, scopeName = getScopeName (int k) (int n)\<rparr>)"
  by (simp add: findVariableInFrame_def resolves_def binding_def Let_def
      split: option.splits sum.splits)

lemma findVariableInFrame_calls:
  "set (snd (findVariableInFrame interp i fr nm k n)) \<subseteq> {(k, nm)}"
  by (simp add: findVariableInFrame_def Let_def split: option.splits sum.splits)

lemma findVariableFrom_innermost:
  assumes "k < m"
    and "resolves interp i (stack ! k) nm = Some w"
    and "\<forall>j. k < j \<and> j < m \<longrightarrow> resolves interp i (stack ! j) nm = None"
  shows "fst (findVariableFrom interp i stack nm m) =
           \<lparr>found = True, rvalue = w, scopeName = getScopeName (int k) (int (length stack))\<rparr>
         \<and> (\<forall>c \<in> set (snd (findVariableFrom interp i stack nm m)). k \<le> fst c \<and> snd c = nm)"
  using assms
proof (induction m)
  case 0
  then show ?case by simp
next
  case (Suc m)
  obtain r cs where fr: "findVariableInFrame interp i (stack ! m) nm m (length stack) = (r, cs)"
    by (cases "findVariableInFrame interp i (stack ! m) nm m (length stack)")
  have r: "r = (case resolves interp i (stack ! m) nm of
        Some w \<Rightarrow> \<lparr>found = True, rvalue = w, scopeName = getScopeName (int m) (int (length stack))\<rparr>
      | None \<Rightarrow> \<lparr>found = False, rvalue = Undefined,
                  scopeName = getScopeName (int m) (int (length stack))\<rparr>)"
    using findVariableInFrame_resolves[of interp i "stack ! m" nm m "length stack"] fr by simp
  have cs: "set cs \<subseteq> {(m, nm)}"
    using findVariableInFrame_calls[of interp i "stack ! m" nm m "length stack"] fr by simp
  show ?case
  proof (cases "k = m")
    case True
    with Suc.prems r
    have "r = \<lparr>found = True, rvalue = w, scopeName = getScopeName (int k) (int (length stack))\<rparr>"
      by simp
    with fr cs True show ?thesis by auto
  next
    case False
    with Suc.prems have km: "k < m" by simp
    from Suc.prems km have "resolves interp i (stack ! m) nm = None" by simp
    with r have nf: "\<not> found r" by simp
    have ih: "fst (findVariableFrom interp i stack nm m) =
           \<lparr>found = True, rvalue = w, scopeName = getScopeName (int k) (int (length stack))\<rparr>
         \<and> (\<forall>c \<in> set (snd (findVariableFrom interp i stack nm m)). k \<le> fst c \<and> snd c = nm)"
      using Suc.IH[OF km] Suc.prems by simp
    obtain r' cs' where rest: "findVariableFrom interp i stack nm m = (r', cs')"
      by (cases "findVariableFrom interp i stack nm m")
    from fr nf rest have "findVariableFrom interp i stack nm (Suc m) = (r', cs @ cs')"
      by simp
    with ih rest cs km show ?thesis by auto
  qed
qed

text \<open>
  C1, as the code has it. Let frame \<open>k\<close> bind the name to a defined value whose
  conversion to a native value succeeds with \<open>w\<close>, and let no frame nearer the top
  resolve the name (it has no scope object, the lookup throws or gives \<open>undefined\<close>,
  or the conversion throws). Then the resolver reports \<open>w\<close> with the label of frame
  \<open>k\<close>, whatever the frames below \<open>k\<close> bind, and it makes no lookup in any frame
  below \<open>k\<close>.
\<close>

theorem findVariableInStack_innermost:
  assumes "k < length stack"
    and "binding interp i (stack ! k) varName = Some v"
    and "convertToNativeValue interp i v = Inr w"
    and "\<forall>j. k < j \<and> j < length stack \<longrightarrow> resolves interp i (stack ! j) varName = None"
  shows "fst (findVariableInStack interp i stack varName) =
           \<lparr>found = True, rvalue = w, scopeName = getScopeName (int k) (int (length stack))\<rparr>
         \<and> (\<forall>c \<in> set (snd (findVariableInStack interp i stack varName)).
               k \<le> fst c \<and> snd c = varName)"
proof -
  from assms(2,3) have "resolves interp i (stack ! k) varName = Some w"
    by (simp add: resolves_def)
  from findVariableFrom_innermost[OF assms(1) this assms(4)] show ?thesis
    by (simp add: findVariableInStack_def)
qed

text \<open>
  The witness: without a conversion function the inner frame's binding of \<open>x\<close> wins
  over the global one, and only the inner frame is looked at.
\<close>

theorem findVariableInStack_innermost_witness:
  "findVariableInStack (scripted [] shadowTable None) 0 shadowStack ''x'' =
     (\<lparr>found = True, rvalue = JRef 9, scopeName = ''Local-0''\<rparr>, [(1, ''x'')])"
proof -
  let ?I = "scripted [] shadowTable None"
  have k: "1 < length shadowStack" by (simp add: shadowStack_def)
  have b: "binding ?I 0 (shadowStack ! 1) ''x'' = Some (JRef 9)"
    by (simp add: binding_def scripted_def shadowStack_def shadowTable_def frameWithScope_def)
  have c: "convertToNativeValue ?I 0 (JRef 9) = Inr (JRef 9)"
    by (simp add: convertToNativeValue_def scripted_def)
  have n: "\<forall>j. 1 < j \<and> j < length shadowStack \<longrightarrow> resolves ?I 0 (shadowStack ! j) ''x'' = None"
    by (auto simp: shadowStack_def)
  have l: "getScopeName (int 1) (int (length shadowStack)) = ''Local-0''"
    by (simp add: getScopeName_def shadowStack_def showInt_def showNat.simps[of 0] digitChar_def)
  have calls: "snd (findVariableInStack ?I 0 shadowStack ''x'') = [(1, ''x'')]"
    by (simp add: findVariableInStack_def findVariableInFrame_def shadowStack_def
        shadowTable_def frameWithScope_def scripted_def convertToNativeValue_def
        numeral_2_eq_2)
  from findVariableInStack_innermost[OF k b c n] l calls show ?thesis
    by (simp add: prod_eq_iff)
qed

text \<open>
  C1 as stated fails: both frames bind \<open>x\<close> to a defined value, the conversion of the
  inner value throws, and the resolver returns the value of the outer, global frame.
\<close>

theorem findVariableInStack_shadowing_counterexample:
  "binding (scripted [] shadowTable (Some failingConversion)) 0 (shadowStack ! 1) ''x''
     = Some (JRef 9) \<and>
   binding (scripted [] shadowTable (Some failingConversion)) 0 (shadowStack ! 0) ''x''
     = Some (JNum 7) \<and>
   fst (findVariableInStack (scripted [] shadowTable (Some failingConversion)) 0 shadowStack ''x'')
     = \<lparr>found = True, rvalue = JNum 7, scopeName = ''Global''\<rparr>"
  by (simp add: binding_def scripted_def shadowStack_def shadowTable_def frameWithScope_def
     findVariableInStack_def findVariableInFrame_def convertToNativeValue_def failingConversion_def
     getScopeName_def numeral_2_eq_2)

subsection \<open>The variable collector\<close>

lemma keys_assign: "fst ` set (assign k v kvs) = insert k (fst ` set kvs)"
proof (induction kvs)
  case Nil
  show ?case by simp
next
  case (Cons p kvs)
  obtain k' v' where p: "p = (k', v')" by (cases p)
  show ?case
  proof (cases "k = k'")
    case True
    then show ?thesis by (simp add: p)
  next
    case False
    then have "fst ` set (assign k v (p # kvs)) = insert k' (fst ` set (assign k v kvs))"
      by (simp add: p)
    also have "\<dots> = insert k' (insert k (fst ` set kvs))" by (simp only: Cons.IH)
    finally show ?thesis by (auto simp: p)
  qed
qed

lemma findVariableFrom_found:
  "found (fst (findVariableFrom interp i stack nm m)) \<Longrightarrow>
   \<exists>k<m. resolves interp i (stack ! k) nm = Some (rvalue (fst (findVariableFrom interp i stack nm m)))"
proof (induction m)
  case 0
  then show ?case by simp
next
  case (Suc m)
  obtain r cs where fr: "findVariableInFrame interp i (stack ! m) nm m (length stack) = (r, cs)"
    by (cases "findVariableInFrame interp i (stack ! m) nm m (length stack)")
  have r: "r = (case resolves interp i (stack ! m) nm of
        Some w \<Rightarrow> \<lparr>found = True, rvalue = w, scopeName = getScopeName (int m) (int (length stack))\<rparr>
      | None \<Rightarrow> \<lparr>found = False, rvalue = Undefined,
                  scopeName = getScopeName (int m) (int (length stack))\<rparr>)"
    using findVariableInFrame_resolves[of interp i "stack ! m" nm m "length stack"] fr by simp
  show ?case
  proof (cases "found r")
    case True
    with r obtain w where w: "resolves interp i (stack ! m) nm = Some w" "rvalue r = w"
      by (cases "resolves interp i (stack ! m) nm") auto
    from fr True have "fst (findVariableFrom interp i stack nm (Suc m)) = r" by simp
    with w show ?thesis by auto
  next
    case False
    with fr have same: "fst (findVariableFrom interp i stack nm (Suc m)) =
        fst (findVariableFrom interp i stack nm m)"
      by (simp split: prod.splits)
    with Suc.prems have "found (fst (findVariableFrom interp i stack nm m))" by simp
    from Suc.IH[OF this] same show ?thesis by (auto simp: less_Suc_eq)
  qed
qed

lemma collectLoop_absent:
  "\<not> (found (fst (findVariableInStack interp i stack nm)) \<and>
       rvalue (fst (findVariableInStack interp i stack nm)) \<noteq> Undefined) \<Longrightarrow>
   nm \<notin> fst ` set vars \<Longrightarrow>
   nm \<notin> fst ` set (fst (collectLoop interp i stack names vars))"
proof (induction names arbitrary: vars)
  case Nil
  then show ?case by simp
next
  case (Cons a names)
  obtain r cs where f: "findVariableInStack interp i stack a = (r, cs)"
    by (cases "findVariableInStack interp i stack a")
  define vars' where "vars' = (if found r \<and> rvalue r \<noteq> Undefined \<and> \<not> inObject a vars
             then assign a (rvalue r) vars else vars)"
  have "nm \<notin> fst ` set vars'"
  proof (cases "a = nm")
    case True
    with f Cons.prems have "\<not> (found r \<and> rvalue r \<noteq> Undefined)" by simp
    then show ?thesis using Cons.prems by (auto simp: vars'_def)
  next
    case False
    then show ?thesis using Cons.prems by (auto simp: vars'_def keys_assign)
  qed
  from Cons.IH[OF Cons.prems(1) this]
  have "nm \<notin> fst ` set (fst (collectLoop interp i stack names vars'))" .
  moreover have "fst (collectLoop interp i stack (a # names) vars) =
      fst (collectLoop interp i stack names vars')"
    using f by (simp add: vars'_def split: prod.splits)
  ultimately show ?case by simp
qed

text \<open>
  C8. With an empty stack or an empty list of names the collector returns the empty
  mapping and makes no lookup. A name that no frame resolves to a defined value (in
  every frame the scope object is missing, the lookup throws or gives \<open>undefined\<close>,
  the conversion throws, or the converted value is \<open>undefined\<close>) is not a key of the
  result. The collector has no exceptional outcome: every call that may throw sits
  inside the \<open>try\<close> block of \<open>findVariableInFrame\<close>, whose handler only logs.
\<close>

theorem collectVariablesFromStack_absent:
  "collectVariablesFromStack interp i [] names = ([], []) \<and>
   collectVariablesFromStack interp i stack [] = ([], []) \<and>
   ((\<forall>k<length stack. \<forall>w. resolves interp i (stack ! k) nm = Some w \<longrightarrow> w = Undefined) \<longrightarrow>
      nm \<notin> fst ` set (fst (collectVariablesFromStack interp i stack names)))"
proof -
  have "nm \<notin> fst ` set (fst (collectVariablesFromStack interp i stack names))"
    if h: "\<forall>k<length stack. \<forall>w. resolves interp i (stack ! k) nm = Some w \<longrightarrow> w = Undefined"
  proof -
    let ?r = "fst (findVariableInStack interp i stack nm)"
    have "\<not> (found ?r \<and> rvalue ?r \<noteq> Undefined)"
    proof
      assume a: "found ?r \<and> rvalue ?r \<noteq> Undefined"
      then have "found (fst (findVariableFrom interp i stack nm (length stack)))"
        by (simp add: findVariableInStack_def)
      from findVariableFrom_found[OF this] obtain k where "k < length stack"
        and "resolves interp i (stack ! k) nm = Some (rvalue ?r)"
        by (auto simp: findVariableInStack_def)
      with h have "rvalue ?r = Undefined" by blast
      with a show False by simp
    qed
    from collectLoop_absent[OF this, of "[]" names] show ?thesis
      by (simp add: collectVariablesFromStack_def)
  qed
  then show ?thesis by (simp add: collectVariablesFromStack_def)
qed

text \<open>
  The witness: \<open>z\<close> is bound in no frame of the example stack, so of the requested
  names \<open>x\<close> and \<open>z\<close> only \<open>x\<close> is collected.
\<close>

theorem collectVariablesFromStack_absent_witness:
  "length shadowStack = 2 \<and>
   resolves (scripted [] shadowTable None) 0 (shadowStack ! 0) ''z'' = None \<and>
   resolves (scripted [] shadowTable None) 0 (shadowStack ! 1) ''z'' = None \<and>
   ''z'' \<notin> fst ` set (fst (collectVariablesFromStack (scripted [] shadowTable None) 0
                              shadowStack [''x'', ''z''])) \<and>
   fst (collectVariablesFromStack (scripted [] shadowTable None) 0 shadowStack [''x'', ''z''])
     = [(''x'', JRef 9)]"
proof -
  let ?I = "scripted [] shadowTable None"
  have l: "length shadowStack = 2" by (simp add: shadowStack_def)
  have r0: "resolves ?I 0 (shadowStack ! 0) ''z'' = None"
    by (simp add: shadowStack_def resolves_def binding_def scripted_def shadowTable_def
        frameWithScope_def)
  have r1: "resolves ?I 0 (shadowStack ! 1) ''z'' = None"
    by (simp add: shadowStack_def resolves_def binding_def scripted_def shadowTable_def
        frameWithScope_def)
  have h: "\<forall>k<length shadowStack. \<forall>w. resolves ?I 0 (shadowStack ! k) ''z'' = Some w
              \<longrightarrow> w = Undefined"
    using r0 r1 by (simp add: l less_Suc_eq numeral_2_eq_2)
  have v: "fst (collectVariablesFromStack ?I 0 shadowStack [''x'', ''z'']) = [(''x'', JRef 9)]"
    by (simp add: collectVariablesFromStack_def findVariableInStack_def findVariableInFrame_def
        shadowStack_def shadowTable_def frameWithScope_def scripted_def convertToNativeValue_def
        inObject_def objectPrototypeKeys_def numeral_2_eq_2)
  from collectVariablesFromStack_absent[of ?I 0 "[''x'', ''z'']" shadowStack "''z''"] h
  have "''z'' \<notin> fst ` set (fst (collectVariablesFromStack ?I 0 shadowStack [''x'', ''z'']))"
    by blast
  with l r0 r1 v show ?thesis by blast
qed

subsection \<open>Snapshots appended by the stepping handlers\<close>

lemma getCurrentState_step:
  "step (fst (getCurrentState interp host c i n t)) = n"
  by (simp add: getCurrentState_def Let_def split: prod.splits)

lemma getCurrentState_notes:
  "snd (getCurrentState interp host c i n t) = snd (viewBlock interp i (getStateStack interp i))"
  by (simp add: getCurrentState_def Let_def split: prod.splits)

lemma appendState_eq:
  "appendState interp host i n s =
     s\<lparr>notifications := notifications s
          @ snd (getCurrentState interp host (code s) i n (dateNow host (clockReads s))),
       clockReads := Suc (clockReads s),
       history := history s
          @ [fst (getCurrentState interp host (code s) i n (dateNow host (clockReads s)))],
       editorCalls := editorCalls s
          @ [HighlightCode
               (hstart (highlight (fst (getCurrentState interp host (code s) i n
                                          (dateNow host (clockReads s))))))
               (hend (highlight (fst (getCurrentState interp host (code s) i n
                                        (dateNow host (clockReads s))))))]\<rparr>"
  by (simp add: appendState_def capture_def split: prod.splits)

lemma appended_refl: "appended sn s s"
  unfolding appended_def by (rule exI[of _ "[]"]) simp

lemma appended_one: "history s0 = history s \<Longrightarrow> appended sn s (appendState interp host i' sn s0)"
  unfolding appended_def
  by (rule exI[of _ "[fst (getCurrentState interp host (code s0) i' sn (dateNow host (clockReads s0)))]"])
     (simp add: appendState_eq getCurrentState_step)

lemma appended_trans:
  assumes "appended sn s s1" and "appended sn s1 s2"
  shows "appended sn s s2"
proof -
  from assms(1) obtain a where a: "history s1 = history s @ a" "\<forall>x\<in>set a. step x = sn"
    unfolding appended_def by blast
  from assms(2) obtain b where b: "history s2 = history s1 @ b" "\<forall>x\<in>set b. step x = sn"
    unfolding appended_def by blast
  have "history s2 = history s @ (a @ b) \<and> (\<forall>x\<in>set (a @ b). step x = sn)"
    using a b by auto
  then show ?thesis unfolding appended_def ..
qed

lemma appended_history: "history s2 = history s1 \<Longrightarrow> appended sn s s1 \<Longrightarrow> appended sn s s2"
  by (simp add: appended_def)

subsection \<open>Unfolding the loops of \<open>stepToView\<close>\<close>

lemma stepPastLoop_stop:
  "\<not> (still \<and> cnt < m) \<Longrightarrow> stepPastLoop interp host sn m i still cnt s = LoopExit cnt i s"
  by (subst stepPastLoop.simps) (simp only: if_False)

lemma stepPastLoop_threw:
  "still \<Longrightarrow> cnt < m \<Longrightarrow> interp_step interp i = Threw err i' \<Longrightarrow>
   stepPastLoop interp host sn m i still cnt s =
     Raise err (s\<lparr>interpreter := Some i', stepCalls := Suc (stepCalls s)\<rparr>)"
  by (subst stepPastLoop.simps) simp

lemma stepPastLoop_done:
  "still \<Longrightarrow> cnt < m \<Longrightarrow> interp_step interp i = Stepped False i' \<Longrightarrow>
   stepPastLoop interp host sn m i still cnt s =
     Return CompletedPast
       ((appendState interp host i' sn
           (s\<lparr>interpreter := Some i', stepCalls := Suc (stepCalls s)\<rparr>))
          \<lparr>isComplete := True, isSteppingToView := False\<rparr>)"
  by (subst stepPastLoop.simps) simp

lemma stepPastLoop_next:
  "still \<Longrightarrow> cnt < m \<Longrightarrow> interp_step interp i = Stepped True i' \<Longrightarrow>
   stepPastLoop interp host sn m i still cnt s =
     stepPastLoop interp host sn m i' (isAtView (getStateStack interp i')) (Suc cnt)
       (appendState interp host i' sn
          (s\<lparr>interpreter := Some i', stepCalls := Suc (stepCalls s)\<rparr>))"
  by (subst stepPastLoop.simps) simp

lemma seekViewLoop_stop:
  "\<not> cnt < m \<Longrightarrow> seekViewLoop interp host sn m i cnt s = LoopExit cnt i s"
  by (subst seekViewLoop.simps) (simp only: if_False)

lemma seekViewLoop_threw:
  "cnt < m \<Longrightarrow> interp_step interp i = Threw err i' \<Longrightarrow>
   seekViewLoop interp host sn m i cnt s =
     Raise err (s\<lparr>interpreter := Some i', stepCalls := Suc (stepCalls s)\<rparr>)"
  by (subst seekViewLoop.simps) simp

lemma seekViewLoop_done:
  "cnt < m \<Longrightarrow> interp_step interp i = Stepped False i' \<Longrightarrow>
   seekViewLoop interp host sn m i cnt s =
     Return CompletedSeek
       ((appendState interp host i' sn
           (s\<lparr>interpreter := Some i', stepCalls := Suc (stepCalls s)\<rparr>))
          \<lparr>isComplete := True, isSteppingToView := False\<rparr>)"
  by (subst seekViewLoop.simps) simp

lemma seekViewLoop_found:
  "cnt < m \<Longrightarrow> interp_step interp i = Stepped True i' \<Longrightarrow>
   isAtView (getStateStack interp i') \<Longrightarrow>
   seekViewLoop interp host sn m i cnt s =
     Return FoundView
       ((appendState interp host i' sn
           (s\<lparr>interpreter := Some i', stepCalls := Suc (stepCalls s)\<rparr>))
          \<lparr>isSteppingToView := False\<rparr>)"
  by (subst seekViewLoop.simps) simp

lemma seekViewLoop_next:
  "cnt < m \<Longrightarrow> interp_step interp i = Stepped True i' \<Longrightarrow>
   \<not> isAtView (getStateStack interp i') \<Longrightarrow>
   seekViewLoop interp host sn m i cnt s =
     seekViewLoop interp host sn m i' (Suc cnt)
       (appendState interp host i' sn
          (s\<lparr>interpreter := Some i', stepCalls := Suc (stepCalls s)\<rparr>))"
  by (subst seekViewLoop.simps) simp

subsection \<open>What the loops guarantee\<close>

lemma loopPost_step:
  assumes "loopPost sn m (Suc cnt)
             (appendState interp host i' sn
                (s\<lparr>interpreter := Some i', stepCalls := Suc (stepCalls s)\<rparr>)) r"
    and "cnt < m"
  shows "loopPost sn m cnt s r"
proof -
  let ?s0 = "s\<lparr>interpreter := Some i', stepCalls := Suc (stepCalls s)\<rparr>"
  let ?s1 = "appendState interp host i' sn ?s0"
  have one: "appended sn s ?s1"
    by (rule appended_one) simp
  have f: "stepCalls ?s1 = Suc (stepCalls s)" "error ?s1 = error s"
    "isComplete ?s1 = isComplete s" "isSteppingToView ?s1 = isSteppingToView s"
    by (simp_all add: appendState_eq)
  show ?thesis
  proof (cases r)
    case (Return e s')
    with assms f appended_trans[OF one, of s'] show ?thesis by (auto simp: loopPost_def)
  next
    case (Raise err s')
    with assms f appended_trans[OF one, of s'] show ?thesis by (auto simp: loopPost_def)
  next
    case (LoopExit c i'' s')
    with assms f appended_trans[OF one, of s'] show ?thesis by (auto simp: loopPost_def)
  qed
qed

lemma loopPost_last:
  assumes "cnt < m" and "history s' = history (appendState interp host i' sn
                (s\<lparr>interpreter := Some i', stepCalls := Suc (stepCalls s)\<rparr>))"
    and "stepCalls s' = Suc (stepCalls s)"
    and "e = CompletedPast \<or> e = CompletedSeek \<or> e = FoundView"
  shows "loopPost sn m cnt s (Return e s')"
proof -
  let ?s0 = "s\<lparr>interpreter := Some i', stepCalls := Suc (stepCalls s)\<rparr>"
  have "appended sn s (appendState interp host i' sn ?s0)"
    by (rule appended_one) simp
  with assms(2) have "appended sn s s'" by (simp add: appended_def)
  with assms show ?thesis by (simp add: loopPost_def)
qed

lemma stepPastLoop_post:
  "cnt \<le> m \<Longrightarrow> loopPost sn m cnt s (stepPastLoop interp host sn m i still cnt s)"
proof (induction interp host sn m i still cnt s rule: stepPastLoop.induct)
  case (1 interp host sn m i still cnt s)
  show ?case
  proof (cases "still \<and> cnt < m")
    case False
    show ?thesis using "1.prems" appended_refl[of sn s]
      by (simp add: stepPastLoop_stop[OF False] loopPost_def)
  next
    case True
    then have st: still and lt: "cnt < m" by simp_all
    show ?thesis
    proof (cases "interp_step interp i")
      case (Threw err i')
      have "appended sn s (s\<lparr>interpreter := Some i', stepCalls := Suc (stepCalls s)\<rparr>)"
        by (rule appended_history[OF _ appended_refl]) simp
      then show ?thesis using lt
        by (simp add: stepPastLoop_threw[OF st lt Threw] loopPost_def)
    next
      case (Stepped c i')
      let ?s0 = "s\<lparr>interpreter := Some i', stepCalls := Suc (stepCalls s)\<rparr>"
      let ?s1 = "appendState interp host i' sn ?s0"
      show ?thesis
      proof (cases c)
        case False
        with Stepped have sf: "interp_step interp i = Stepped False i'" by simp
        show ?thesis unfolding stepPastLoop_done[OF st lt sf]
          by (rule loopPost_last[OF lt]) (simp_all add: appendState_eq)
      next
        case c: True
        have "loopPost sn m (Suc cnt) ?s1
            (stepPastLoop interp host sn m i' (isAtView (getStateStack interp i')) (Suc cnt) ?s1)"
          using "1.IH"[OF True Stepped refl] c lt by simp
        then have "loopPost sn m cnt s
            (stepPastLoop interp host sn m i' (isAtView (getStateStack interp i')) (Suc cnt) ?s1)"
          using lt by (rule loopPost_step)
        then show ?thesis using Stepped c by (simp add: stepPastLoop_next[OF st lt])
      qed
    qed
  qed
qed

lemma seekViewLoop_post:
  "cnt \<le> m \<Longrightarrow> loopPost sn m cnt s (seekViewLoop interp host sn m i cnt s)"
proof (induction interp host sn m i cnt s rule: seekViewLoop.induct)
  case (1 interp host sn m i cnt s)
  show ?case
  proof (cases "cnt < m")
    case False
    show ?thesis using "1.prems" appended_refl[of sn s]
      by (simp add: seekViewLoop_stop[OF False] loopPost_def)
  next
    case lt: True
    show ?thesis
    proof (cases "interp_step interp i")
      case (Threw err i')
      have "appended sn s (s\<lparr>interpreter := Some i', stepCalls := Suc (stepCalls s)\<rparr>)"
        by (rule appended_history[OF _ appended_refl]) simp
      then show ?thesis using lt
        by (simp add: seekViewLoop_threw[OF lt Threw] loopPost_def)
    next
      case (Stepped c i')
      let ?s0 = "s\<lparr>interpreter := Some i', stepCalls := Suc (stepCalls s)\<rparr>"
      let ?s1 = "appendState interp host i' sn ?s0"
      show ?thesis
      proof (cases c)
        case False
        with Stepped have sf: "interp_step interp i = Stepped False i'" by simp
        show ?thesis unfolding seekViewLoop_done[OF lt sf]
          by (rule loopPost_last[OF lt]) (simp_all add: appendState_eq)
      next
        case c: True
        with Stepped have st: "interp_step interp i = Stepped True i'" by simp
        show ?thesis
        proof (cases "isAtView (getStateStack interp i')")
          case True
          show ?thesis unfolding seekViewLoop_found[OF lt st True]
            by (rule loopPost_last[OF lt]) (simp_all add: appendState_eq)
        next
          case False
          have "loopPost sn m (Suc cnt) ?s1 (seekViewLoop interp host sn m i' (Suc cnt) ?s1)"
            using "1.IH"[OF lt Stepped refl] c False lt by simp
          then have "loopPost sn m cnt s (seekViewLoop interp host sn m i' (Suc cnt) ?s1)"
            using lt by (rule loopPost_step)
          then show ?thesis by (simp add: seekViewLoop_next[OF lt st False])
        qed
      qed
    qed
  qed
qed

lemma seekViewLoop_exit:
  "seekViewLoop interp host sn m i cnt s = LoopExit c i' s' \<Longrightarrow> m \<le> c"
proof (induction interp host sn m i cnt s rule: seekViewLoop.induct)
  case (1 interp host sn m i cnt s)
  show ?case
  proof (cases "cnt < m")
    case False
    with "1.prems" show ?thesis by (simp add: seekViewLoop_stop[OF False])
  next
    case lt: True
    show ?thesis
    proof (cases "interp_step interp i")
      case (Threw err j)
      with "1.prems" lt show ?thesis by (simp add: seekViewLoop_threw[OF lt Threw])
    next
      case (Stepped b j)
      show ?thesis
      proof (cases "b \<and> \<not> isAtView (getStateStack interp j)")
        case True
        then have b: b and nv: "\<not> isAtView (getStateStack interp j)" by simp_all
        from Stepped b have st: "interp_step interp i = Stepped True j" by simp
        from "1.prems" have "seekViewLoop interp host sn m j (Suc cnt)
           (appendState interp host j sn
              (s\<lparr>interpreter := Some j, stepCalls := Suc (stepCalls s)\<rparr>))
             = LoopExit c i' s'"
          by (simp add: seekViewLoop_next[OF lt st nv])
        with "1.IH"[OF lt Stepped refl _ nv] b show ?thesis by simp
      next
        case False
        show ?thesis
        proof (cases b)
          case True
          with False have v: "isAtView (getStateStack interp j)" by simp
          from Stepped True have st: "interp_step interp i = Stepped True j" by simp
          from "1.prems" show ?thesis by (simp add: seekViewLoop_found[OF lt st v])
        next
          case nb: False
          with Stepped have st: "interp_step interp i = Stepped False j" by simp
          from "1.prems" show ?thesis by (simp add: seekViewLoop_done[OF lt st])
        qed
      qed
    qed
  qed
qed

lemma stepToViewBody_post:
  "bodyPost sn m s (stepToViewBody interp host sn m i s)"
proof -
  define first where "first = (if isAtView (getStateStack interp i) then
               (case stepPastLoop interp host sn m i True 0 s of
                  LoopExit stepsCount i' s' \<Rightarrow>
                    if m \<le> stepsCount then
                      Return CeilingPast
                        (s'\<lparr>error := Some
                              ''Maximum steps reached while trying to step past view() breakpoint'',
                            isSteppingToView := False\<rparr>)
                    else LoopExit stepsCount i' s'
                | other \<Rightarrow> other)
             else LoopExit 0 i s)"
  have body: "stepToViewBody interp host sn m i s =
     (case first of
           LoopExit stepsCount i' s' \<Rightarrow>
             (case seekViewLoop interp host sn m i' stepsCount s' of
                LoopExit stepsCount' i'' s'' \<Rightarrow>
                  if m \<le> stepsCount' then
                    Return CeilingSeek
                      (s''\<lparr>error := Some ''Maximum steps reached while looking for next View'',
                           isSteppingToView := False\<rparr>)
                  else Return FellThrough s''
              | other \<Rightarrow> other)
         | other \<Rightarrow> other)"
    by (simp add: stepToViewBody_def first_def Let_def)
  have p1: "loopPost sn m 0 s (stepPastLoop interp host sn m i True 0 s)"
    by (rule stepPastLoop_post) simp
  have firstPost:
    "case first of
       Return e s' \<Rightarrow> bodyPost sn m s (Return e s')
     | Raise err s' \<Rightarrow> bodyPost sn m s (Raise err s')
     | LoopExit c i' s' \<Rightarrow> loopPost sn m 0 s (LoopExit c i' s')"
  proof (cases "isAtView (getStateStack interp i)")
    case False
    then show ?thesis using appended_refl[of sn s] by (simp add: first_def loopPost_def)
  next
    case True
    show ?thesis
    proof (cases "stepPastLoop interp host sn m i True 0 s")
      case (Return e s')
      with p1 True show ?thesis by (auto simp: first_def loopPost_def bodyPost_def)
    next
      case (Raise err s')
      with p1 True show ?thesis by (auto simp: first_def loopPost_def bodyPost_def)
    next
      case (LoopExit c i' s')
      with p1 True show ?thesis
        by (auto simp: first_def loopPost_def bodyPost_def appended_def)
    qed
  qed
  show ?thesis
  proof (cases first)
    case (Return e s')
    with firstPost body show ?thesis by simp
  next
    case (Raise err s')
    with firstPost body show ?thesis by simp
  next
    case (LoopExit c i' s')
    with firstPost have lp: "loopPost sn m 0 s (LoopExit c i' s')" by simp
    then have c: "c \<le> m" and calls: "stepCalls s' = stepCalls s + c"
      and same: "error s' = error s" "isComplete s' = isComplete s"
        "isSteppingToView s' = isSteppingToView s"
      and app1: "appended sn s s'"
      by (simp_all add: loopPost_def)
    have p2: "loopPost sn m c s' (seekViewLoop interp host sn m i' c s')"
      using c by (rule seekViewLoop_post)
    show ?thesis
    proof (cases "seekViewLoop interp host sn m i' c s'")
      case (Return e s'')
      with p2 have "appended sn s' s''" by (simp add: loopPost_def)
      from appended_trans[OF app1 this] p2 Return c calls body LoopExit
      show ?thesis by (auto simp: loopPost_def bodyPost_def)
    next
      case (Raise err s'')
      with p2 have "appended sn s' s''" by (simp add: loopPost_def)
      from appended_trans[OF app1 this] p2 Raise c calls body LoopExit
      show ?thesis by (auto simp: loopPost_def bodyPost_def)
    next
      case L2: (LoopExit c2 i'' s'')
      with p2 have "appended sn s' s''" by (simp add: loopPost_def)
      from appended_trans[OF app1 this]
      have "appended sn s (s''\<lparr>error := Some ''Maximum steps reached while looking for next View'',
                           isSteppingToView := False\<rparr>)"
        by (simp add: appended_def)
      moreover have stop: "\<not> c2 < m"
        using seekViewLoop_exit[OF L2] by simp
      ultimately show ?thesis using p2 L2 c calls same body LoopExit
        by (auto simp: loopPost_def bodyPost_def)
    qed
  qed
qed

lemma stepToViewExit_post:
  assumes "stepToViewExit interp host s = (e, s')"
  shows "stepCalls s' \<le> stepCalls s + maxSteps \<and>
         appended (length (history s)) s s' \<and>
         e \<noteq> FellThrough \<and>
         (e = CeilingPast \<longrightarrow>
            error s' = Some ''Maximum steps reached while trying to step past view() breakpoint'') \<and>
         (e = CeilingSeek \<longrightarrow>
            error s' = Some ''Maximum steps reached while looking for next View'') \<and>
         (e = CeilingPast \<or> e = CeilingSeek \<longrightarrow>
             \<not> isSteppingToView s' \<and> \<not> isComplete s' \<and>
             stepCalls s' = stepCalls s + maxSteps)"
proof (cases "interpreter s")
  case None
  with assms appended_refl[of "length (history s)" s] show ?thesis
    by (auto simp: stepToViewExit_def)
next
  case (Some i)
  show ?thesis
  proof (cases "isComplete s")
    case True
    with Some assms appended_refl[of "length (history s)" s] show ?thesis
      by (auto simp: stepToViewExit_def)
  next
    case False
    let ?s0 = "s\<lparr>isSteppingToView := True\<rparr>"
    have bp: "bodyPost (length (history s)) maxSteps ?s0
               (stepToViewBody interp host (length (history s)) maxSteps i ?s0)"
      by (rule stepToViewBody_post)
    have app: "\<And>t. appended (length (history s)) ?s0 t \<Longrightarrow> appended (length (history s)) s t"
      by (simp add: appended_def)
    show ?thesis
    proof (cases "stepToViewBody interp host (length (history s)) maxSteps i ?s0")
      case (Return e0 s0)
      with bp Some False assms app[of s0] show ?thesis
        by (auto simp: stepToViewExit_def bodyPost_def)
    next
      case (Raise err s0)
      with bp have "appended (length (history s)) ?s0 s0" by (simp add: bodyPost_def)
      then have "appended (length (history s)) s
          (s0\<lparr>error := Some (''Execution error: '' @ errString err), isSteppingToView := False\<rparr>)"
        by (simp add: appended_def)
      with Raise bp Some False assms show ?thesis
        by (auto simp: stepToViewExit_def bodyPost_def)
    next
      case (LoopExit c j s0)
      with bp show ?thesis by (simp add: bodyPost_def)
    qed
  qed
qed

subsection \<open>Programs that never stop\<close>

lemma seekViewLoop_runaway:
  assumes run: "\<forall>j. \<exists>j'. interp_step interp j = Stepped True j'"
    and nov: "\<forall>j. \<not> isAtView (getStateStack interp j)"
  shows "cnt \<le> m \<Longrightarrow> \<exists>i' s'. seekViewLoop interp host sn m i cnt s = LoopExit m i' s'"
proof (induction "m - cnt" arbitrary: cnt i s)
  case 0
  then have "\<not> cnt < m" and "cnt = m" by simp_all
  then show ?case by (simp add: seekViewLoop_stop)
next
  case (Suc d)
  then have lt: "cnt < m" by simp
  from run obtain j where st: "interp_step interp i = Stepped True j" by blast
  from nov have nv: "\<not> isAtView (getStateStack interp j)" by simp
  have "\<exists>i' s'. seekViewLoop interp host sn m j (Suc cnt)
           (appendState interp host j sn
              (s\<lparr>interpreter := Some j, stepCalls := Suc (stepCalls s)\<rparr>))
          = LoopExit m i' s'"
    using Suc.hyps(1)[of "Suc cnt"] Suc.hyps(2) lt by simp
  then show ?case by (simp add: seekViewLoop_next[OF lt st nv])
qed

lemma stepPastLoop_runaway:
  assumes run: "\<forall>j. \<exists>j'. interp_step interp j = Stepped True j'"
    and allv: "\<forall>j. isAtView (getStateStack interp j)"
  shows "cnt \<le> m \<Longrightarrow> \<exists>i' s'. stepPastLoop interp host sn m i True cnt s = LoopExit m i' s'"
proof (induction "m - cnt" arbitrary: cnt i s)
  case 0
  then have "\<not> (True \<and> cnt < m)" and "cnt = m" by simp_all
  then show ?case by (simp add: stepPastLoop_stop)
next
  case (Suc d)
  then have lt: "cnt < m" by simp
  from run obtain j where st: "interp_step interp i = Stepped True j" by blast
  from allv have v: "isAtView (getStateStack interp j)" by simp
  have "\<exists>i' s'. stepPastLoop interp host sn m j True (Suc cnt)
           (appendState interp host j sn
              (s\<lparr>interpreter := Some j, stepCalls := Suc (stepCalls s)\<rparr>))
          = LoopExit m i' s'"
    using Suc.hyps(1)[of "Suc cnt"] Suc.hyps(2) lt by simp
  then show ?case using v by (simp add: stepPastLoop_next[OF TrueI lt st])
qed

lemma stepToViewExit_runaway_seek:
  assumes "interpreter s = Some i" and "\<not> isComplete s"
    and run: "\<forall>j. \<exists>j'. interp_step interp j = Stepped True j'"
    and nov: "\<forall>j. \<not> isAtView (getStateStack interp j)"
  shows "fst (stepToViewExit interp host s) = CeilingSeek"
proof -
  let ?s0 = "s\<lparr>isSteppingToView := True\<rparr>"
  from seekViewLoop_runaway[OF run nov, of 0 maxSteps host "length (history s)" i ?s0]
  obtain i' s' where "seekViewLoop interp host (length (history s)) maxSteps i 0 ?s0
      = LoopExit maxSteps i' s'" by auto
  with assms show ?thesis
    by (simp add: stepToViewExit_def stepToViewBody_def)
qed

lemma stepToViewExit_runaway_past:
  assumes "interpreter s = Some i" and "\<not> isComplete s"
    and run: "\<forall>j. \<exists>j'. interp_step interp j = Stepped True j'"
    and allv: "\<forall>j. isAtView (getStateStack interp j)"
  shows "fst (stepToViewExit interp host s) = CeilingPast"
proof -
  let ?s0 = "s\<lparr>isSteppingToView := True\<rparr>"
  from stepPastLoop_runaway[OF run allv, of 0 maxSteps host "length (history s)" i ?s0]
  obtain i' s' where "stepPastLoop interp host (length (history s)) maxSteps i True 0 ?s0
      = LoopExit maxSteps i' s'" by auto
  with assms show ?thesis
    by (simp add: stepToViewExit_def stepToViewBody_def)
qed

subsection \<open>The step ceiling of \<open>stepToView\<close>\<close>

text \<open>
  C2. \<open>stepToView\<close> is a total function: its two loops are defined with a termination
  proof on \<open>maxSteps - stepsCount\<close>, given that each call of the interpreter's
  \<open>step()\<close> returns. One invocation calls \<open>step()\<close> at most 100000 times over both
  loops together, which count in the same variable. The ceiling is reached when a loop
  ends because \<open>stepsCount < maxSteps\<close> no longer holds and the test
  \<open>stepsCount >= maxSteps\<close> after it succeeds (an invocation whose last permitted
  step completes the program, or in the second loop arrives at a \<open>view\<close> call, ends
  at that \<open>return\<close> instead). Then exactly 100000 calls were made, the error message
  of that loop is set, the stepping flag is cleared and the session is not marked
  complete. The ceiling is reached by programs that do not stop: one that never
  completes, never throws and never stands at a \<open>view\<close> call ends at the test after
  the second loop, and one that always stands at a \<open>view\<close> call ends at the test
  after the first loop.
\<close>

theorem stepToView_bounded:
  "stepCalls (stepToView interp host s) \<le> stepCalls s + 100000 \<and>
   (fst (stepToViewExit interp host s) = CeilingPast \<longrightarrow>
      error (stepToView interp host s) =
        Some ''Maximum steps reached while trying to step past view() breakpoint'') \<and>
   (fst (stepToViewExit interp host s) = CeilingSeek \<longrightarrow>
      error (stepToView interp host s) =
        Some ''Maximum steps reached while looking for next View'') \<and>
   (fst (stepToViewExit interp host s) = CeilingPast \<or>
    fst (stepToViewExit interp host s) = CeilingSeek \<longrightarrow>
      stepCalls (stepToView interp host s) = stepCalls s + 100000 \<and>
      \<not> isSteppingToView (stepToView interp host s) \<and>
      \<not> isComplete (stepToView interp host s)) \<and>
   (interpreter s \<noteq> None \<and> \<not> isComplete s \<and>
    (\<forall>j. \<exists>j'. interp_step interp j = Stepped True j') \<and>
    (\<forall>j. \<not> isAtView (getStateStack interp j)) \<longrightarrow>
      fst (stepToViewExit interp host s) = CeilingSeek) \<and>
   (interpreter s \<noteq> None \<and> \<not> isComplete s \<and>
    (\<forall>j. \<exists>j'. interp_step interp j = Stepped True j') \<and>
    (\<forall>j. isAtView (getStateStack interp j)) \<longrightarrow>
      fst (stepToViewExit interp host s) = CeilingPast)"
proof -
  obtain e s' where r: "stepToViewExit interp host s = (e, s')"
    by (cases "stepToViewExit interp host s")
  have s': "stepToView interp host s = s'" by (simp add: stepToView_def r)
  from stepToViewExit_post[OF r] s' r
  have first: "stepCalls (stepToView interp host s) \<le> stepCalls s + 100000"
    and past: "fst (stepToViewExit interp host s) = CeilingPast \<longrightarrow>
      error (stepToView interp host s) =
        Some ''Maximum steps reached while trying to step past view() breakpoint''"
    and seek: "fst (stepToViewExit interp host s) = CeilingSeek \<longrightarrow>
      error (stepToView interp host s) =
        Some ''Maximum steps reached while looking for next View''"
    and both: "fst (stepToViewExit interp host s) = CeilingPast \<or>
      fst (stepToViewExit interp host s) = CeilingSeek \<longrightarrow>
      stepCalls (stepToView interp host s) = stepCalls s + 100000 \<and>
      \<not> isSteppingToView (stepToView interp host s) \<and>
      \<not> isComplete (stepToView interp host s)"
    by (simp_all add: maxSteps_def)
  have r1: "interpreter s \<noteq> None \<and> \<not> isComplete s \<and>
    (\<forall>j. \<exists>j'. interp_step interp j = Stepped True j') \<and>
    (\<forall>j. \<not> isAtView (getStateStack interp j)) \<longrightarrow>
      fst (stepToViewExit interp host s) = CeilingSeek"
    using stepToViewExit_runaway_seek[of s _ interp host] by blast
  have r2: "interpreter s \<noteq> None \<and> \<not> isComplete s \<and>
    (\<forall>j. \<exists>j'. interp_step interp j = Stepped True j') \<and>
    (\<forall>j. isAtView (getStateStack interp j)) \<longrightarrow>
      fst (stepToViewExit interp host s) = CeilingPast"
    using stepToViewExit_runaway_past[of s _ interp host] by blast
  from first past seek both r1 r2 show ?thesis by blast
qed

text \<open>
  The witness: on the interpreter that steps for ever without a \<open>view\<close> call the
  handler stops after 100000 steps with the error message of the second loop.
\<close>

theorem stepToView_bounded_witness:
  "fst (stepToViewExit runaway exampleHost (blankSession ''while (true) {}'' (Some 0)))
     = CeilingSeek \<and>
   stepCalls (stepToView runaway exampleHost (blankSession ''while (true) {}'' (Some 0)))
     = 100000 \<and>
   error (stepToView runaway exampleHost (blankSession ''while (true) {}'' (Some 0)))
     = Some ''Maximum steps reached while looking for next View'' \<and>
   \<not> isSteppingToView
       (stepToView runaway exampleHost (blankSession ''while (true) {}'' (Some 0))) \<and>
   \<not> isComplete (stepToView runaway exampleHost (blankSession ''while (true) {}'' (Some 0)))"
proof -
  let ?S = "blankSession ''while (true) {}'' (Some 0)"
  have h: "interpreter ?S \<noteq> None \<and> \<not> isComplete ?S \<and>
    (\<forall>j. \<exists>j'. interp_step runaway j = Stepped True j') \<and>
    (\<forall>j. \<not> isAtView (getStateStack runaway j))"
    by (simp add: blankSession_def runaway_def scripted_def isAtView_def)
  have z: "stepCalls ?S = 0" by (simp add: blankSession_def)
  from stepToView_bounded[of runaway exampleHost ?S] h z show ?thesis by simp
qed

subsection \<open>The history only grows\<close>

lemma clearAutoPlay_fields:
  "interpreter (clearAutoPlay s) = interpreter s"
  "history (clearAutoPlay s) = history s"
  "isRunning (clearAutoPlay s) = isRunning s"
  "isComplete (clearAutoPlay s) = isComplete s"
  "isSteppingToView (clearAutoPlay s) = isSteppingToView s"
  "error (clearAutoPlay s) = error s"
  "code (clearAutoPlay s) = code s"
  "environment (clearAutoPlay s) = environment s"
  "editorCalls (clearAutoPlay s) = editorCalls s"
  "notifications (clearAutoPlay s) = notifications s"
  "stepCalls (clearAutoPlay s) = stepCalls s"
  "clockReads (clearAutoPlay s) = clockReads s"
  "autoPlayInterval (clearAutoPlay s) = None"
  by (simp_all add: clearAutoPlay_def split: option.splits)

lemma stepForward_appended:
  "appended (length (history s)) s (stepForward interp host s)"
proof (cases "interpreter s")
  case None
  then show ?thesis by (simp add: stepForward_def appended_refl)
next
  case (Some i)
  show ?thesis
  proof (cases "isComplete s")
    case True
    with Some show ?thesis by (simp add: stepForward_def appended_refl)
  next
    case False
    show ?thesis
    proof (cases "interp_step interp i")
      case (Threw err i')
      with Some False show ?thesis
        by (simp add: stepForward_def appended_def clearAutoPlay_fields)
    next
      case (Stepped c i')
      let ?s1 = "appendState interp host i' (length (history s))
                   (s\<lparr>interpreter := Some i', stepCalls := Suc (stepCalls s)\<rparr>)"
      have one: "appended (length (history s)) s ?s1"
        by (rule appended_one) simp
      have "history (stepForward interp host s) = history ?s1"
        using Some False Stepped by (simp add: stepForward_def Let_def clearAutoPlay_fields)
      with one show ?thesis by (simp add: appended_def)
    qed
  qed
qed

text \<open>
  C4. \<open>stepBackward\<close> changes nothing but the list of calls made to the editor: the
  history, the interpreter, the count of \<open>step()\<close> calls, the flags, the error, the
  timer and the notifications stay as they are. With at most one snapshot it is the
  identity; otherwise it adds one call that highlights the range of the second-to-last
  snapshot. \<open>stepForward\<close> and \<open>stepToView\<close> leave a history that starts with the
  old one.
\<close>

theorem history_append_only:
  "history (stepBackward s) = history s \<and>
   interpreter (stepBackward s) = interpreter s \<and>
   stepCalls (stepBackward s) = stepCalls s \<and>
   isRunning (stepBackward s) = isRunning s \<and>
   isComplete (stepBackward s) = isComplete s \<and>
   isSteppingToView (stepBackward s) = isSteppingToView s \<and>
   error (stepBackward s) = error s \<and>
   autoPlayInterval (stepBackward s) = autoPlayInterval s \<and>
   notifications (stepBackward s) = notifications s \<and>
   (length (history s) \<le> 1 \<longrightarrow> stepBackward s = s) \<and>
   (1 < length (history s) \<longrightarrow>
      editorCalls (stepBackward s) =
        editorCalls s
        @ [HighlightCode (hstart (highlight (history s ! (length (history s) - 2))))
             (hend (highlight (history s ! (length (history s) - 2))))]) \<and>
   (\<exists>new. history (stepForward interp host s) = history s @ new) \<and>
   (\<exists>new. history (stepToView interp host s) = history s @ new)"
proof -
  have bwd: "history (stepBackward s) = history s \<and>
   interpreter (stepBackward s) = interpreter s \<and>
   stepCalls (stepBackward s) = stepCalls s \<and>
   isRunning (stepBackward s) = isRunning s \<and>
   isComplete (stepBackward s) = isComplete s \<and>
   isSteppingToView (stepBackward s) = isSteppingToView s \<and>
   error (stepBackward s) = error s \<and>
   autoPlayInterval (stepBackward s) = autoPlayInterval s \<and>
   notifications (stepBackward s) = notifications s \<and>
   (length (history s) \<le> 1 \<longrightarrow> stepBackward s = s) \<and>
   (1 < length (history s) \<longrightarrow>
      editorCalls (stepBackward s) =
        editorCalls s
        @ [HighlightCode (hstart (highlight (history s ! (length (history s) - 2))))
             (hend (highlight (history s ! (length (history s) - 2))))])"
    by (simp add: stepBackward_def Let_def)
  have fwd: "\<exists>new. history (stepForward interp host s) = history s @ new"
    using stepForward_appended[of s interp host] by (auto simp: appended_def)
  obtain e s' where r: "stepToViewExit interp host s = (e, s')"
    by (cases "stepToViewExit interp host s")
  from stepToViewExit_post[OF r] have "appended (length (history s)) s s'" by simp
  then have tov: "\<exists>new. history (stepToView interp host s) = history s @ new"
    by (auto simp: appended_def stepToView_def r)
  from bwd fwd tov show ?thesis by blast
qed

text \<open>
  The witness: a session with two snapshots. Stepping back highlights the range of the
  first one and leaves both in place.
\<close>

theorem history_append_only_witness:
  "length (history twoStepSession) = 2 \<and>
   history (stepBackward twoStepSession) = [snapshotAt 0 0 6, snapshotAt 1 7 13] \<and>
   editorCalls (stepBackward twoStepSession) = [HighlightCode 0 6] \<and>
   stepCalls (stepBackward twoStepSession) = 1 \<and>
   (\<exists>new. history (stepForward (scripted plainScript xyTable None) exampleHost twoStepSession)
           = [snapshotAt 0 0 6, snapshotAt 1 7 13] @ new)"
proof -
  have l: "length (history twoStepSession) = 2" "1 < length (history twoStepSession)"
    by (simp_all add: twoStepSession_def)
  have h: "history twoStepSession = [snapshotAt 0 0 6, snapshotAt 1 7 13]"
    "editorCalls twoStepSession = []" "stepCalls twoStepSession = 1"
    by (simp_all add: twoStepSession_def blankSession_def)
  have hl: "hstart (highlight (history twoStepSession ! (length (history twoStepSession) - 2))) = 0"
    "hend (highlight (history twoStepSession ! (length (history twoStepSession) - 2))) = 6"
    by (simp_all add: h snapshotAt_def)
  from history_append_only[of twoStepSession "scripted plainScript xyTable None" exampleHost]
    l h hl show ?thesis by simp
qed

subsection \<open>Step numbers\<close>

lemma capture_eq:
  "capture interp host i n s =
     (fst (getCurrentState interp host (code s) i n (dateNow host (clockReads s))),
      s\<lparr>notifications := notifications s
          @ snd (getCurrentState interp host (code s) i n (dateNow host (clockReads s))),
        clockReads := Suc (clockReads s)\<rparr>)"
  by (simp add: capture_def split: prod.splits)

lemma refresh_success:
  assumes "trim (code s) \<noteq> []"
    and "initializeInterpreter interp host (code s) (environment s) = (Some i, [])"
  shows "interpreter (refresh interp host s) = Some i"
    and "history (refresh interp host s) =
           [fst (getCurrentState interp host (code s) i 0 (dateNow host (clockReads s)))]"
    and "\<not> isComplete (refresh interp host s)"
    and "stepCalls (refresh interp host s) = stepCalls s"
    and "notifications (refresh interp host s) =
           notifications s @ snd (viewBlock interp i (getStateStack interp i))"
  using assms
  by (simp_all add: refresh_def Let_def capture_eq setErrors_def clearAutoPlay_fields
      getCurrentState_notes)

text \<open>
  C5 fails on the code. The example program takes two steps and has no \<open>view\<close> call.
  After \<open>refresh\<close> the history holds snapshot 0; one call of \<open>stepToView\<close> then
  appends two snapshots, and both carry the step number 1, since the handler passes
  \<open>history.length\<close> of the render it belongs to in every iteration. The snapshot at
  position 2 has step 1.
\<close>

theorem stepToView_repeats_step_index:
  "map step (history (stepToView (scripted plainScript xyTable None) exampleHost
      (refresh (scripted plainScript xyTable None) exampleHost
         (blankSession ''x = 1; y = 2;'' None)))) = [0, 1, 1]"
proof -
  let ?I = "scripted plainScript xyTable None"
  let ?B = "blankSession ''x = 1; y = 2;'' None"
  let ?S = "refresh ?I exampleHost ?B"
  have t: "trim (code ?B) \<noteq> []"
    by (simp add: blankSession_def trim_def utf16_def isWhiteSpace_def)
  have init: "initializeInterpreter ?I exampleHost (code ?B) (environment ?B) = (Some 0, [])"
    using t
    by (simp add: initializeInterpreter_def exampleHost_def blankSession_def utf16_def
        initFunc_def scripted_def)
  note r = refresh_success[OF t init]
  have len: "length (history ?S) = 1" by (simp add: r(2))
  have st0: "map step (history ?S) = [0]" by (simp add: r(2) getCurrentState_step)
  have nv: "\<And>j. \<not> isAtView (getStateStack ?I j)"
    by (simp add: scripted_def plainScript_def isAtView_def programFrame_def frameAt_def
        mkNode_def nth_Cons split: nat.splits)
  have s0: "interp_step ?I 0 = Stepped True 1"
    by (simp add: scripted_def plainScript_def)
  have s1: "interp_step ?I 1 = Stepped False 2"
    by (simp add: scripted_def plainScript_def)
  let ?T0 = "?S\<lparr>isSteppingToView := True\<rparr>"
  let ?T1 = "appendState ?I exampleHost 1 1
               (?T0\<lparr>interpreter := Some 1, stepCalls := Suc (stepCalls ?T0)\<rparr>)"
  let ?T2 = "appendState ?I exampleHost 2 1
               (?T1\<lparr>interpreter := Some 2, stepCalls := Suc (stepCalls ?T1)\<rparr>)"
  have lt0: "0 < maxSteps" and lt1: "Suc 0 < maxSteps" by (simp_all add: maxSteps_def)
  have l1: "seekViewLoop ?I exampleHost 1 maxSteps 0 0 ?T0 =
      seekViewLoop ?I exampleHost 1 maxSteps 1 (Suc 0) ?T1"
    by (rule seekViewLoop_next[OF lt0 s0 nv])
  have l2: "seekViewLoop ?I exampleHost 1 maxSteps 1 (Suc 0) ?T1 =
      Return CompletedSeek (?T2\<lparr>isComplete := True, isSteppingToView := False\<rparr>)"
    by (rule seekViewLoop_done[OF lt1 s1])
  have loop: "seekViewLoop ?I exampleHost 1 maxSteps 0 0 ?T0 =
      Return CompletedSeek (?T2\<lparr>isComplete := True, isSteppingToView := False\<rparr>)"
    using l1 l2 by (rule trans)
  have "stepToView ?I exampleHost ?S = ?T2\<lparr>isComplete := True, isSteppingToView := False\<rparr>"
    using nv[of 0] loop
    by (simp add: stepToView_def stepToViewExit_def stepToViewBody_def r(1) r(3) len)
  then show ?thesis
    by (simp add: appendState_eq getCurrentState_step st0)
qed

subsection \<open>The view-argument extractor\<close>

lemma extractViewPairs_step:
  assumes nh: "noHoleRead e"
  shows "extractViewPairs (e # rest) acc =
     extractViewPairs rest (if isLiteralPair e then acc @ [pairOf e] else acc)"
proof (cases e)
  case None
  with nh show ?thesis by (simp add: noHoleRead_def)
next
  case (Some el)
  show ?thesis
  proof (cases "ntype el = ''ArrayExpression''")
    case False
    with Some show ?thesis by (simp add: isLiteralPair_def)
  next
    case arr: True
    show ?thesis
    proof (cases "elements el")
      case None
      with Some arr show ?thesis by (simp add: isLiteralPair_def)
    next
      case es: (Some es)
      show ?thesis
      proof (cases "2 \<le> length es")
        case False
        with Some arr es show ?thesis by (simp add: isLiteralPair_def)
      next
        case True
        then obtain a b others where l: "es = a # b # others"
          by (cases es; cases "tl es") auto
        show ?thesis
        proof (cases a)
          case None
          with nh Some arr es l show ?thesis by (simp add: noHoleRead_def)
        next
          case a: (Some first)
          show ?thesis
          proof (cases "ntype first = ''Literal''")
            case False
            with Some arr es l a show ?thesis
              by (simp add: isLiteralPair_def split: option.splits)
          next
            case lit: True
            show ?thesis
            proof (cases b)
              case None
              with nh Some arr es l a lit show ?thesis by (simp add: noHoleRead_def)
            next
              case b: (Some second)
              with Some arr es l a lit show ?thesis
                by (simp add: isLiteralPair_def pairOf_def)
            qed
          qed
        qed
      qed
    qed
  qed
qed

lemma extractViewPairs_spec:
  "\<forall>e\<in>set es. noHoleRead e \<Longrightarrow> extractViewPairs es acc = Inr (acc @ specifiedPairs es)"
proof (induction es arbitrary: acc)
  case Nil
  show ?case by (simp add: specifiedPairs_def)
next
  case (Cons e es)
  then have nh: "noHoleRead e" and rest: "\<forall>x\<in>set es. noHoleRead x" by simp_all
  show ?case
    unfolding extractViewPairs_step[OF nh]
    using Cons.IH[OF rest] by (simp add: specifiedPairs_def)
qed

lemma xyElements_pairs: "extractViewPairs xyElements [] = Inr [(''x'', ''X''), (''y'', ''Y'')]"
  by (simp add: xyElements_def arrayExpression_def literal_def)

lemma isAtView_alt:
  "isAtView stack =
     (stack \<noteq> [] \<and>
      (case node (last stack) of
         None \<Rightarrow> False
       | Some n \<Rightarrow>
           ntype n = ''CallExpression'' \<and>
           (case callee n of
              None \<Rightarrow> False
            | Some c \<Rightarrow> ntype c = ''Identifier'' \<and> nname c = Some ''view'')))"
  by (cases stack) (simp_all add: isAtView_def)

lemma isAtView_top:
  "node fr = Some n \<Longrightarrow> ntype n = ''CallExpression'' \<Longrightarrow> callee n = Some c \<Longrightarrow>
   ntype c = ''Identifier'' \<Longrightarrow> nname c = Some ''view'' \<Longrightarrow> isAtView (below @ [fr])"
  by (simp add: isAtView_alt)

lemma viewBlock_at_view:
  assumes "node fr = Some n" and "ntype n = ''CallExpression''" and "callee n = Some c"
    and "ntype c = ''Identifier''" and "nname c = Some ''view''"
    and "arguments n = Some (firstArg # others)" and "ntype firstArg = ''ArrayExpression''"
    and "elements firstArg = Some es" and "extractViewPairs es [] = Inr pairs"
  shows "viewBlock interp i (below @ [fr]) =
           (if pairs = [] then ([], [])
            else (fst (collectVariablesFromStack interp i (below @ [fr]) (map fst pairs)),
                  [(fst (collectVariablesFromStack interp i (below @ [fr]) (map fst pairs)),
                    pairs)]))"
  using assms isAtView_top[OF assms(1-5), of below]
  by (simp add: viewBlock_def topNode_def Let_def)

text \<open>
  C3, as the code has it. At a frame whose node is the call
  \<open>view([["x","X"],["y","Y"]])\<close> the breakpoint detector reports true, the extractor
  yields the pairs \<open>(x, X)\<close>, \<open>(y, Y)\<close> in that order, and these are the pairs of
  the one notification \<open>getCurrentState\<close> sends. For \<open>view([["x"]])\<close> the extractor
  yields no pair. In general, when no position the extractor reads holds a hole of an
  array literal, the extractor does not throw and yields exactly the pairs of the
  elements that are literal arrays of two or more elements whose first two elements are
  literals, in order; every other element contributes nothing.
\<close>

theorem extractViewPairs_wellformed:
  "isAtView (below @ [frameAt xyView r]) \<and>
   extractViewPairs xyElements [] = Inr [(''x'', ''X''), (''y'', ''Y'')] \<and>
   snd (viewBlock interp i (below @ [frameAt xyView r])) =
     [(fst (collectVariablesFromStack interp i (below @ [frameAt xyView r]) [''x'', ''y'']),
       [(''x'', ''X''), (''y'', ''Y'')])] \<and>
   extractViewPairs arityOneElements [] = Inr [] \<and>
   ((\<forall>e\<in>set es. noHoleRead e) \<longrightarrow> extractViewPairs es [] = Inr (specifiedPairs es))"
proof -
  have n: "node (frameAt xyView r) = Some xyView" by (simp add: frameAt_def)
  have shape: "ntype xyView = ''CallExpression''"
    "callee xyView = Some (identifierNode 0 4 ''view'')"
    "ntype (identifierNode 0 4 ''view'') = ''Identifier''"
    "nname (identifierNode 0 4 ''view'') = Some ''view''"
    "arguments xyView = Some (arrayExpression 5 26 xyElements # [])"
    "ntype (arrayExpression 5 26 xyElements) = ''ArrayExpression''"
    "elements (arrayExpression 5 26 xyElements) = Some xyElements"
    by (simp_all add: xyView_def callExpression_def identifierNode_def arrayExpression_def)
  have a: "isAtView (below @ [frameAt xyView r])"
    by (rule isAtView_top[OF n shape(1-4)])
  have b: "snd (viewBlock interp i (below @ [frameAt xyView r])) =
     [(fst (collectVariablesFromStack interp i (below @ [frameAt xyView r]) [''x'', ''y'']),
       [(''x'', ''X''), (''y'', ''Y'')])]"
    by (simp add: viewBlock_at_view[OF n shape xyElements_pairs])
  have c: "extractViewPairs arityOneElements [] = Inr []"
    by (simp add: arityOneElements_def arrayExpression_def literal_def)
  have d: "(\<forall>e\<in>set es. noHoleRead e) \<longrightarrow> extractViewPairs es [] = Inr (specifiedPairs es)"
    using extractViewPairs_spec[of es "[]"] by simp
  from a xyElements_pairs b c d show ?thesis by blast
qed

text \<open>
  The witness: the elements of \<open>view([["x"], 7, ["y","Y"]])\<close>. The first is a literal
  array of one element, the second is no array; both are passed over, and the pair of
  the third is extracted.
\<close>

theorem extractViewPairs_wellformed_witness:
  "noHoleRead (Some (arrayExpression 6 11 [Some (literal 7 10 (JStr ''x''))])) \<and>
   noHoleRead (Some (literal 13 14 (JNum 7))) \<and>
   noHoleRead (Some (arrayExpression 16 25
                 [Some (literal 17 20 (JStr ''y'')), Some (literal 21 24 (JStr ''Y''))])) \<and>
   extractViewPairs
     [Some (arrayExpression 6 11 [Some (literal 7 10 (JStr ''x''))]),
      Some (literal 13 14 (JNum 7)),
      Some (arrayExpression 16 25
              [Some (literal 17 20 (JStr ''y'')), Some (literal 21 24 (JStr ''Y''))])] []
     = Inr [(''y'', ''Y'')]"
proof -
  let ?e1 = "Some (arrayExpression 6 11 [Some (literal 7 10 (JStr ''x''))])"
  let ?e2 = "Some (literal 13 14 (JNum 7))"
  let ?e3 = "Some (arrayExpression 16 25
                 [Some (literal 17 20 (JStr ''y'')), Some (literal 21 24 (JStr ''Y''))])"
  have h: "noHoleRead ?e1" "noHoleRead ?e2" "noHoleRead ?e3"
    by (simp_all add: noHoleRead_def arrayExpression_def literal_def)
  then have all: "\<forall>e\<in>set [?e1, ?e2, ?e3]. noHoleRead e" by simp
  have sp: "specifiedPairs [?e1, ?e2, ?e3] = [(''y'', ''Y'')]"
    by (simp add: specifiedPairs_def isLiteralPair_def pairOf_def arrayExpression_def
        literal_def)
  from extractViewPairs_wellformed[of "[]" 0 "scripted [] xyTable None" 0 "[?e1, ?e2, ?e3]"]
    all sp
  have "extractViewPairs [?e1, ?e2, ?e3] [] = Inr [(''y'', ''Y'')]" by simp
  with h show ?thesis by blast
qed

text \<open>
  C3 as stated fails. In \<open>view([[,"X"],["y","Y"]])\<close> the first element is a literal
  array of two elements whose first element is a hole, not a literal. It is not passed
  over: reading the hole's \<open>type\<close> throws inside the extractor, the well-formed pair
  \<open>(y, Y)\<close> is lost with it, and the handler of \<open>getCurrentState\<close> leaves an error
  marker in \<open>viewVariables\<close> and sends no notification.
\<close>

theorem extractViewPairs_hole_counterexample:
  "\<not> isLiteralPair (holeElements ! 0) \<and>
   specifiedPairs holeElements = [(''y'', ''Y'')] \<and>
   extractViewPairs holeElements [] = Inl (nullDeref ''type'') \<and>
   viewBlock (scripted [] xyTable None) 0 [frameAt holeView 0] =
     ([(''[View Error]'',
        JStr (''Could not extract view variables: '' @ errString (nullDeref ''type'')))], [])"
  by (simp add: holeElements_def holeView_def specifiedPairs_def isLiteralPair_def pairOf_def
      arrayExpression_def literal_def callExpression_def identifierNode_def frameAt_def
      viewBlock_def isAtView_def topNode_def)

subsection \<open>Notifying the variable store\<close>






lemma noted_refl: "notifications s' = notifications s \<Longrightarrow> history s' = history s \<Longrightarrow>
   noted interp [] s s'"
  by (simp add: noted_def)


















subsection \<open>Initialisation and its failures\<close>

lemma trim_empty: "trim s = [] \<longleftrightarrow> (\<forall>c\<in>set s. isWhiteSpace c)"
proof
  assume "trim s = []"
  then have "dropWhile isWhiteSpace (rev (dropWhile isWhiteSpace s)) = []"
    by (simp add: trim_def)
  then have all: "\<forall>c\<in>set (dropWhile isWhiteSpace s). isWhiteSpace c"
    by (simp add: dropWhile_eq_Nil_conv)
  have "dropWhile isWhiteSpace s = []"
  proof (rule ccontr)
    assume ne: "dropWhile isWhiteSpace s \<noteq> []"
    then have "\<not> isWhiteSpace (hd (dropWhile isWhiteSpace s))"
      by (rule hd_dropWhile)
    moreover from ne have "hd (dropWhile isWhiteSpace s) \<in> set (dropWhile isWhiteSpace s)"
      by simp
    ultimately show False using all by blast
  qed
  then show "\<forall>c\<in>set s. isWhiteSpace c" by (simp add: dropWhile_eq_Nil_conv)
next
  assume "\<forall>c\<in>set s. isWhiteSpace c"
  then have d: "dropWhile isWhiteSpace s = []" by (simp add: dropWhile_eq_Nil_conv)
  show "trim s = []" unfolding trim_def d by simp
qed

lemma trim_example: "trim (utf16 ''} x = 1;'') \<noteq> []" "trim (utf16 ''x = 1;'') \<noteq> []"
  by (simp_all add: trim_def utf16_def isWhiteSpace_def)

lemma initializeInterpreter_reports:
  "fst (initializeInterpreter interp host currentCode env) = None \<Longrightarrow>
   \<exists>msg. snd (initializeInterpreter interp host currentCode env) = [msg]"
  by (simp add: initializeInterpreter_def split: option.splits sum.splits if_splits)

lemma bindVariables_step:
  "bindVariables interp g ((key, variable) # rest) i =
     (case convertedBinding interp i g key variable of
        Inr i' \<Rightarrow> bindVariables interp g rest i'
      | Inl e \<Rightarrow>
          (case setProperty interp i g key variable of
             Inl err \<Rightarrow> Inl err
           | Inr i' \<Rightarrow> bindVariables interp g rest i'))"
  by (simp add: convertedBinding_def)

lemma bindVariables_append:
  "bindVariables interp g (pre @ rest) i =
     (case bindVariables interp g pre i of
        Inl err \<Rightarrow> Inl err
      | Inr i1 \<Rightarrow> bindVariables interp g rest i1)"
proof (induction pre arbitrary: i)
  case Nil
  show ?case by simp
next
  case (Cons p pre)
  obtain key variable where p: "p = (key, variable)" by (cases p)
  show ?case
    unfolding p append_Cons bindVariables_step
    by (simp add: Cons.IH split: sum.splits)
qed

lemma bindVariables_throws:
  "bindVariables interp g vs i = Inl err \<longleftrightarrow>
     (\<exists>pre key variable post i1 e.
        vs = pre @ (key, variable) # post \<and>
        bindVariables interp g pre i = Inr i1 \<and>
        convertedBinding interp i1 g key variable = Inl e \<and>
        setProperty interp i1 g key variable = Inl err)"
  (is "?L vs i \<longleftrightarrow> ?R vs i")
proof
  assume "?R vs i"
  then obtain pre key variable post i1 e where
    "vs = pre @ (key, variable) # post" "bindVariables interp g pre i = Inr i1"
    "convertedBinding interp i1 g key variable = Inl e"
    "setProperty interp i1 g key variable = Inl err"
    by blast
  then show "?L vs i"
    by (simp add: bindVariables_append bindVariables_step del: bindVariables.simps)
next
  show "?L vs i \<Longrightarrow> ?R vs i"
  proof (induction vs arbitrary: i)
    case Nil
    then show ?case by simp
  next
    case (Cons p rest)
    obtain key variable where p: "p = (key, variable)" by (cases p)
    have later: "?R (p # rest) i"
      if b: "bindVariables interp g [p] i = Inr i'" and r: "bindVariables interp g rest i' = Inl err"
      for i'
    proof -
      from Cons.IH[OF r] obtain pre k v post i1 e where
        d: "rest = pre @ (k, v) # post" "bindVariables interp g pre i' = Inr i1"
        "convertedBinding interp i1 g k v = Inl e" "setProperty interp i1 g k v = Inl err"
        by blast
      have "bindVariables interp g (p # pre) i = Inr i1"
        using bindVariables_append[of interp g "[p]" pre i] b d(2) by simp
      moreover have "p # rest = (p # pre) @ (k, v) # post" using d(1) by simp
      ultimately show ?thesis using d(3,4) by blast
    qed
    show ?case
    proof (cases "convertedBinding interp i g key variable")
      case (Inr i')
      then have b: "bindVariables interp g [p] i = Inr i'"
        unfolding p bindVariables_step by simp
      from Cons.prems Inr have "bindVariables interp g rest i' = Inl err"
        unfolding p bindVariables_step by simp
      from later[OF b this] show ?thesis .
    next
      case (Inl e)
      show ?thesis
      proof (cases "setProperty interp i g key variable")
        case raw: (Inl err')
        with Cons.prems Inl have "err' = err" unfolding p bindVariables_step by simp
        with raw Inl have "p # rest = [] @ (key, variable) # rest \<and>
            bindVariables interp g [] i = Inr i \<and>
            convertedBinding interp i g key variable = Inl e \<and>
            setProperty interp i g key variable = Inl err"
          by (simp add: p)
        then show ?thesis by blast
      next
        case (Inr i')
        with Inl have b: "bindVariables interp g [p] i = Inr i'"
          unfolding p bindVariables_step by simp
        from Cons.prems Inl Inr have "bindVariables interp g rest i' = Inl err"
          unfolding p bindVariables_step by simp
        from later[OF b this] show ?thesis .
      qed
    qed
  qed
qed

text \<open>
  C7, as the code has it. \<open>initializeInterpreter\<close> returns no interpreter in exactly
  three cases: the interpreter class is not loaded, the program text is empty or consists
  of white space only, or the call of the interpreter class's constructor, which is
  handed the initialisation callback, throws. An error is reported exactly when no
  interpreter is returned, and when the constructor throws the message is
  \<open>Code error:\<close> followed by the message of the exception. The callback itself lets
  an exception escape in exactly two ways: for some variable of the environment, all
  earlier ones being bound, the converted binding throws and the fallback binding of the
  raw value throws too; or all variables are bound and creating the native function for
  \<open>getVariablesJSON\<close>, or binding it, throws.
\<close>

theorem initializeInterpreter_failure:
  "(fst (initializeInterpreter interp host currentCode env) = None \<longleftrightarrow>
      Interpreter host = None \<or> trim currentCode = [] \<or>
      (\<exists>cls err. Interpreter host = Some cls \<and>
                 cls currentCode (initFunc interp host env) = Inl err)) \<and>
   (trim currentCode = [] \<longleftrightarrow> (\<forall>c\<in>set currentCode. isWhiteSpace c)) \<and>
   (fst (initializeInterpreter interp host currentCode env) = None \<longleftrightarrow>
      snd (initializeInterpreter interp host currentCode env) \<noteq> []) \<and>
   (Interpreter host = None \<longrightarrow>
      snd (initializeInterpreter interp host currentCode env) =
        [''JS-Interpreter not loaded. Please refresh the page.'']) \<and>
   (Interpreter host \<noteq> None \<and> trim currentCode = [] \<longrightarrow>
      snd (initializeInterpreter interp host currentCode env) =
        [''No code available to execute'']) \<and>
   (\<forall>cls err. Interpreter host = Some cls \<and> trim currentCode \<noteq> [] \<and>
      cls currentCode (initFunc interp host env) = Inl err \<longrightarrow>
      snd (initializeInterpreter interp host currentCode env) =
        [''Code error: '' @ errMessage err]) \<and>
   (initFunc interp host env i g = Inl exc \<longleftrightarrow>
      bindVariables interp g (case env of None \<Rightarrow> [] | Some vs \<Rightarrow> vs) i = Inl exc \<or>
      (\<exists>i'. bindVariables interp g (case env of None \<Rightarrow> [] | Some vs \<Rightarrow> vs) i = Inr i' \<and>
         (createNativeFunction interp i'
            (\<lambda>_. JStr (JSON_stringify host
                          (JObject (case env of None \<Rightarrow> [] | Some vs \<Rightarrow> vs)))) = Inl exc \<or>
          (\<exists>wrapper.
             createNativeFunction interp i'
               (\<lambda>_. JStr (JSON_stringify host
                             (JObject (case env of None \<Rightarrow> [] | Some vs \<Rightarrow> vs)))) = Inr wrapper \<and>
             setProperty interp i' g ''getVariablesJSON'' wrapper = Inl exc)))) \<and>
   (bindVariables interp g entries i = Inl exc \<longleftrightarrow>
      (\<exists>pre key variable post i1 e.
         entries = pre @ (key, variable) # post \<and>
         bindVariables interp g pre i = Inr i1 \<and>
         convertedBinding interp i1 g key variable = Inl e \<and>
         setProperty interp i1 g key variable = Inl exc))"
proof -
  have a: "fst (initializeInterpreter interp host currentCode env) = None \<longleftrightarrow>
      Interpreter host = None \<or> trim currentCode = [] \<or>
      (\<exists>cls err. Interpreter host = Some cls \<and>
                 cls currentCode (initFunc interp host env) = Inl err)"
    by (auto simp: initializeInterpreter_def split: option.splits sum.splits)
  have b: "trim currentCode = [] \<longleftrightarrow> (\<forall>c\<in>set currentCode. isWhiteSpace c)"
    by (rule trim_empty)
  have c: "fst (initializeInterpreter interp host currentCode env) = None \<longleftrightarrow>
      snd (initializeInterpreter interp host currentCode env) \<noteq> []"
    by (simp add: initializeInterpreter_def split: option.splits sum.splits)
  have d: "Interpreter host = None \<longrightarrow>
      snd (initializeInterpreter interp host currentCode env) =
        [''JS-Interpreter not loaded. Please refresh the page.'']"
    by (simp add: initializeInterpreter_def)
  have e: "Interpreter host \<noteq> None \<and> trim currentCode = [] \<longrightarrow>
      snd (initializeInterpreter interp host currentCode env) =
        [''No code available to execute'']"
    by (auto simp: initializeInterpreter_def)
  have f: "\<forall>cls err. Interpreter host = Some cls \<and> trim currentCode \<noteq> [] \<and>
      cls currentCode (initFunc interp host env) = Inl err \<longrightarrow>
      snd (initializeInterpreter interp host currentCode env) =
        [''Code error: '' @ errMessage err]"
    by (simp add: initializeInterpreter_def)
  have g: "initFunc interp host env i g = Inl exc \<longleftrightarrow>
      bindVariables interp g (case env of None \<Rightarrow> [] | Some vs \<Rightarrow> vs) i = Inl exc \<or>
      (\<exists>i'. bindVariables interp g (case env of None \<Rightarrow> [] | Some vs \<Rightarrow> vs) i = Inr i' \<and>
         (createNativeFunction interp i'
            (\<lambda>_. JStr (JSON_stringify host
                          (JObject (case env of None \<Rightarrow> [] | Some vs \<Rightarrow> vs)))) = Inl exc \<or>
          (\<exists>wrapper.
             createNativeFunction interp i'
               (\<lambda>_. JStr (JSON_stringify host
                             (JObject (case env of None \<Rightarrow> [] | Some vs \<Rightarrow> vs)))) = Inr wrapper \<and>
             setProperty interp i' g ''getVariablesJSON'' wrapper = Inl exc)))"
    by (simp add: initFunc_def Let_def split: sum.splits)
  have h: "bindVariables interp g entries i = Inl exc \<longleftrightarrow>
      (\<exists>pre key variable post i1 e.
         entries = pre @ (key, variable) # post \<and>
         bindVariables interp g pre i = Inr i1 \<and>
         convertedBinding interp i1 g key variable = Inl e \<and>
         setProperty interp i1 g key variable = Inl exc)"
    by (rule bindVariables_throws)
  from a b c d e f g h show ?thesis by blast
qed

text \<open>
  The witness: the example host rejects a program that starts with a closing brace, and
  the message carries the text of the syntax error; a text that consists of a no-break
  space and a byte order mark is white space only and is refused as empty.
\<close>

theorem initializeInterpreter_failure_witness:
  "trim (utf16 ''} x = 1;'') \<noteq> [] \<and>
   initializeInterpreter (scripted plainScript xyTable None) exampleHost
       (utf16 ''} x = 1;'') None
     = (None, [''Code error: Unexpected token (1:0)'']) \<and>
   trim [0xA0, 0xFEFF] = [] \<and>
   initializeInterpreter (scripted plainScript xyTable None) exampleHost [0xA0, 0xFEFF] None
     = (None, [''No code available to execute''])"
proof -
  let ?I = "scripted plainScript xyTable None"
  let ?cls = "\<lambda>programText init.
        if take 1 programText = utf16 ''}''
        then Inl (JsError ''SyntaxError'' ''Unexpected token (1:0)'')
        else init (0::nat) (JRef 100)"
  have cls: "Interpreter exampleHost = Some ?cls" by (simp add: exampleHost_def)
  have thr: "?cls (utf16 ''} x = 1;'') (initFunc ?I exampleHost None)
                = Inl (JsError ''SyntaxError'' ''Unexpected token (1:0)'')"
    by (simp add: utf16_def)
  have t: "trim (utf16 ''} x = 1;'') \<noteq> []" by (rule trim_example)
  note p = initializeInterpreter_failure[of ?I exampleHost "utf16 ''} x = 1;''" None]
  have p1: "fst (initializeInterpreter ?I exampleHost (utf16 ''} x = 1;'') None) = None"
    using p[THEN conjunct1] cls thr by blast
  have p2: "snd (initializeInterpreter ?I exampleHost (utf16 ''} x = 1;'') None)
           = [''Code error: '' @ errMessage (JsError ''SyntaxError'' ''Unexpected token (1:0)'')]"
    using p[THEN conjunct2, THEN conjunct2, THEN conjunct2, THEN conjunct2, THEN conjunct2,
            THEN conjunct1] cls thr t by blast
  from p1 p2 have a: "initializeInterpreter ?I exampleHost (utf16 ''} x = 1;'') None
     = (None, [''Code error: Unexpected token (1:0)''])"
    by (simp add: prod_eq_iff)
  have w: "\<forall>c\<in>set [0xA0, 0xFEFF]. isWhiteSpace c" by (simp add: isWhiteSpace_def)
  note q = initializeInterpreter_failure[of ?I exampleHost "[0xA0, 0xFEFF]" None]
  have blank: "trim [0xA0, 0xFEFF] = []"
    using q[THEN conjunct2, THEN conjunct1] w by blast
  have q1: "fst (initializeInterpreter ?I exampleHost [0xA0, 0xFEFF] None) = None"
    using q[THEN conjunct1] blank by blast
  have q2: "snd (initializeInterpreter ?I exampleHost [0xA0, 0xFEFF] None)
           = [''No code available to execute'']"
    using q[THEN conjunct2, THEN conjunct2, THEN conjunct2, THEN conjunct2, THEN conjunct1]
      cls blank by simp
  from q1 q2 have b: "initializeInterpreter ?I exampleHost [0xA0, 0xFEFF] None
     = (None, [''No code available to execute''])"
    by (simp add: prod_eq_iff)
  from t a blank b show ?thesis by blast
qed

text \<open>
  C7 as stated fails. With the interpreter class loaded and the same program text,
  initialisation succeeds for one environment and fails for another: the variable
  \<open>NaN\<close> cannot be bound, neither converted nor raw, the exception leaves the
  initialisation callback and the constructor, and it is reported as a code error
  although the program parses. The same happens when the native function for
  \<open>getVariablesJSON\<close> cannot be created. A conversion that throws does no harm as
  long as the raw value can be bound.
\<close>

theorem initializeInterpreter_environment_counterexample:
  "initializeInterpreter readOnlyGlobals exampleHost (utf16 ''x = 1;'') None = (Some 0, []) \<and>
   initializeInterpreter readOnlyGlobals exampleHost (utf16 ''x = 1;'')
       (Some [(''NaN'', JNum 0)])
     = (None, [''Code error: Cannot assign to read only property NaN'']) \<and>
   initializeInterpreter noNativeFunctions exampleHost (utf16 ''x = 1;'') None
     = (None, [''Code error: No native functions'']) \<and>
   initializeInterpreter noConversion exampleHost (utf16 ''x = 1;'') (Some [(''a'', JNum 0)])
     = (Some 0, [])"
  using trim_example(2)
  by (simp add: initializeInterpreter_def exampleHost_def utf16_def
      initFunc_def readOnlyGlobals_def noNativeFunctions_def noConversion_def scripted_def)

subsection \<open>A failed refresh\<close>

lemma setErrors_fields:
  "interpreter (setErrors msgs s) = interpreter s"
  "history (setErrors msgs s) = history s"
  "isRunning (setErrors msgs s) = isRunning s"
  "isComplete (setErrors msgs s) = isComplete s"
  "isSteppingToView (setErrors msgs s) = isSteppingToView s"
  "autoPlayInterval (setErrors msgs s) = autoPlayInterval s"
  "clearedIntervals (setErrors msgs s) = clearedIntervals s"
  "stepCalls (setErrors msgs s) = stepCalls s"
  by (induction msgs arbitrary: s) (simp_all add: setErrors_def)

lemma setErrors_single: "error (setErrors [msg] s) = Some msg"
  by (simp add: setErrors_def)

lemma clearAutoPlay_cleared:
  "clearedIntervals (clearAutoPlay s) =
     clearedIntervals s @ (case autoPlayInterval s of None \<Rightarrow> [] | Some t \<Rightarrow> [t])"
  by (simp add: clearAutoPlay_def split: option.splits)

text \<open>
  C10. When \<open>refresh\<close> finds the program text empty or white space only, or
  \<open>initializeInterpreter\<close> returns no interpreter, the session it leaves has no
  interpreter and an empty history, the flags running, complete and stepping-to-view are
  false, no timer is pending (a timer that was pending has been cleared), and an error
  message is set.
\<close>

theorem refresh_failure_resets:
  assumes "trim (code s) = [] \<or>
           fst (initializeInterpreter interp host (code s) (environment s)) = None"
  shows "interpreter (refresh interp host s) = None \<and>
         history (refresh interp host s) = [] \<and>
         \<not> isRunning (refresh interp host s) \<and>
         \<not> isComplete (refresh interp host s) \<and>
         \<not> isSteppingToView (refresh interp host s) \<and>
         autoPlayInterval (refresh interp host s) = None \<and>
         clearedIntervals (refresh interp host s) =
           clearedIntervals s @ (case autoPlayInterval s of None \<Rightarrow> [] | Some t \<Rightarrow> [t]) \<and>
         error (refresh interp host s) \<noteq> None \<and>
         error (refresh interp host s) =
           (if trim (code s) = [] then Some ''No code to debug''
            else Some (hd (snd (initializeInterpreter interp host (code s) (environment s)))))"
proof (cases "trim (code s) = []")
  case True
  then show ?thesis
    by (simp add: refresh_def Let_def clearAutoPlay_fields clearAutoPlay_cleared)
next
  case False
  with assms have none: "fst (initializeInterpreter interp host (code s) (environment s)) = None"
    by simp
  from initializeInterpreter_reports[OF none] obtain msg
    where msg: "snd (initializeInterpreter interp host (code s) (environment s)) = [msg]" ..
  from none msg have r: "initializeInterpreter interp host (code s) (environment s) = (None, [msg])"
    by (simp add: prod_eq_iff)
  show ?thesis using False
    by (simp add: refresh_def Let_def r setErrors_fields setErrors_single clearAutoPlay_fields
        clearAutoPlay_cleared)
qed

text \<open>
  The witness: a session in an auto-play run with two snapshots, whose program text no
  longer parses. After \<open>refresh\<close> nothing of the run is left.
\<close>

theorem refresh_failure_resets_witness:
  "fst (initializeInterpreter (scripted plainScript xyTable None) exampleHost
          (code busySession) (environment busySession)) = None \<and>
   length (history busySession) = 2 \<and> isRunning busySession \<and>
   interpreter busySession = Some 1 \<and>
   interpreter (refresh (scripted plainScript xyTable None) exampleHost busySession) = None \<and>
   history (refresh (scripted plainScript xyTable None) exampleHost busySession) = [] \<and>
   \<not> isRunning (refresh (scripted plainScript xyTable None) exampleHost busySession) \<and>
   \<not> isSteppingToView (refresh (scripted plainScript xyTable None) exampleHost busySession) \<and>
   autoPlayInterval (refresh (scripted plainScript xyTable None) exampleHost busySession)
     = None \<and>
   clearedIntervals (refresh (scripted plainScript xyTable None) exampleHost busySession)
     = [7] \<and>
   error (refresh (scripted plainScript xyTable None) exampleHost busySession)
     = Some ''Code error: Unexpected token (1:0)''"
proof -
  let ?I = "scripted plainScript xyTable None"
  have c: "code busySession = utf16 ''} x = 1;''" "environment busySession = None"
    "autoPlayInterval busySession = Some 7" "clearedIntervals busySession = []"
    "length (history busySession) = 2" "isRunning busySession"
    "interpreter busySession = Some 1"
    by (simp_all add: busySession_def twoStepSession_def blankSession_def)
  have t: "trim (utf16 ''} x = 1;'') \<noteq> []" by (rule trim_example)
  have init: "initializeInterpreter ?I exampleHost (utf16 ''} x = 1;'') None
     = (None, [''Code error: Unexpected token (1:0)''])"
    using t by (simp add: initializeInterpreter_def exampleHost_def utf16_def)
  then have h: "trim (code busySession) = [] \<or>
           fst (initializeInterpreter ?I exampleHost (code busySession) (environment busySession))
             = None"
    by (simp add: c)
  from refresh_failure_resets[OF h] c t init show ?thesis by simp
qed

end
